theory Spec2Isabelle
  imports Complex_Main
begin

section \<open>The Ledger: the two PostgreSQL tables\<close>

text \<open>
  \<^verbatim>\<open>db_init\<close> creates two tables, each with \<^verbatim>\<open>user_id BIGINT PRIMARY KEY\<close>:
  \<^verbatim>\<open>users(user_id, is_subscribed, created_at, updated_at)\<close> and
  \<^verbatim>\<open>payments(user_id, payment_id, updated_at)\<close>.
  A table is the list of its rows in storage order, keyed by \<open>user_id\<close>; a row is looked
  up with \<open>map_of\<close>. Timestamps (\<^verbatim>\<open>now_utc()\<close>) are readings of a clock handed to each
  operation.
\<close>

type_synonym timestamp = int

record user_row =
  is_subscribed :: bool
  created_at :: timestamp
  updated_at :: timestamp

record payment_row =
  payment_id :: string
  pay_updated_at :: timestamp

record ledger =
  users :: "(int \<times> user_row) list"
  payments :: "(int \<times> payment_row) list"

text \<open>
  \<^verbatim>\<open>INSERT ... ON CONFLICT (user_id) DO UPDATE SET ...\<close>: the row with the key is rewritten
  by \<open>f\<close> (the \<^verbatim>\<open>SET\<close> clause) when it exists, and the new row \<open>v\<close> is appended otherwise.
\<close>

fun insert_on_conflict :: "'k \<Rightarrow> 'v \<Rightarrow> ('v \<Rightarrow> 'v) \<Rightarrow> ('k \<times> 'v) list \<Rightarrow> ('k \<times> 'v) list" where
  "insert_on_conflict k v f [] = [(k, v)]"
| "insert_on_conflict k v f (row # rows) =
     (if fst row = k then (k, f (snd row)) # rows
      else row # insert_on_conflict k v f rows)"

text \<open>\<^verbatim>\<open>DELETE FROM t WHERE user_id=$1\<close>.\<close>

definition delete_where :: "'k \<Rightarrow> ('k \<times> 'v) list \<Rightarrow> ('k \<times> 'v) list" where
  "delete_where k rows = filter (\<lambda>row. fst row \<noteq> k) rows"

definition upsert_user :: "timestamp \<Rightarrow> int \<Rightarrow> ledger \<Rightarrow> ledger" where
  "upsert_user now user_id L =
     L\<lparr>users := insert_on_conflict user_id
         \<lparr>is_subscribed = False, created_at = now, updated_at = now\<rparr>
         (\<lambda>row. row\<lparr>updated_at := now\<rparr>)
         (users L)\<rparr>"

definition set_subscribed :: "timestamp \<Rightarrow> int \<Rightarrow> bool \<Rightarrow> ledger \<Rightarrow> ledger" where
  "set_subscribed now user_id subscribed L =
     L\<lparr>users := insert_on_conflict user_id
         \<lparr>is_subscribed = subscribed, created_at = now, updated_at = now\<rparr>
         (\<lambda>row. row\<lparr>is_subscribed := subscribed, updated_at := now\<rparr>)
         (users L)\<rparr>"

text \<open>\<^verbatim>\<open>bool(row and row["is_subscribed"])\<close>: a missing row reads as not subscribed.\<close>

definition get_subscribed :: "int \<Rightarrow> ledger \<Rightarrow> bool" where
  "get_subscribed user_id L =
     (case map_of (users L) user_id of None \<Rightarrow> False | Some row \<Rightarrow> is_subscribed row)"

text \<open>
  \<^verbatim>\<open>remove_user\<close> as the handlers see it when both statements and the commit succeed;
  its behaviour under a failing statement is \<open>remove_user_tx\<close> below.
\<close>

definition remove_user :: "int \<Rightarrow> ledger \<Rightarrow> ledger" where
  "remove_user user_id L =
     L\<lparr>users := delete_where user_id (users L),
       payments := delete_where user_id (payments L)\<rparr>"

definition get_subscribers :: "ledger \<Rightarrow> int list" where
  "get_subscribers L = map fst (filter (\<lambda>row. is_subscribed (snd row)) (users L))"

definition save_last_payment :: "timestamp \<Rightarrow> int \<Rightarrow> string \<Rightarrow> ledger \<Rightarrow> ledger" where
  "save_last_payment now user_id pid L =
     L\<lparr>payments := insert_on_conflict user_id
         \<lparr>payment_id = pid, pay_updated_at = now\<rparr>
         (\<lambda>row. row\<lparr>payment_id := pid, pay_updated_at := now\<rparr>)
         (payments L)\<rparr>"

definition get_last_payment :: "int \<Rightarrow> ledger \<Rightarrow> string option" where
  "get_last_payment user_id L = map_option payment_id (map_of (payments L) user_id)"

section \<open>Python values and exceptions\<close>

text \<open>
  The value \<^verbatim>\<open>json.loads\<close> returns. \<open>JObj\<close> holds the items of the Python dict, looked up
  with \<open>map_of\<close>.
\<close>

datatype json =
    JNull
  | JBool bool
  | JNum int
  | JFloat real
  | JStr string
  | JArr "json list"
  | JObj "(string \<times> json) list"

datatype exn =
    YooKassaError nat string  \<comment> \<open>\<^verbatim>\<open>RuntimeError(f"YooKassa error {resp.status}: {text}")\<close>\<close>
  | NetworkError string       \<comment> \<open>raised by the HTTP session itself (timeout, connection)\<close>
  | JSONDecodeError
  | AttributeError
  | KeyError string
  | TypeError
  | DataError                 \<comment> \<open>the database driver refusing a non-string for a TEXT column\<close>
  | TelegramError string      \<comment> \<open>raised by a Bot API call\<close>

text \<open>\<^verbatim>\<open>d.get(key)\<close>: only a dict has the method.\<close>

definition py_get :: "json \<Rightarrow> string \<Rightarrow> exn + json option" where
  "py_get d key = (case d of JObj items \<Rightarrow> Inr (map_of items key) | _ \<Rightarrow> Inl AttributeError)"

text \<open>\<^verbatim>\<open>d[key]\<close> with a string key.\<close>

definition py_subscript :: "json \<Rightarrow> string \<Rightarrow> exn + json" where
  "py_subscript d key =
     (case d of
        JObj items \<Rightarrow> (case map_of items key of None \<Rightarrow> Inl (KeyError key) | Some v \<Rightarrow> Inr v)
      | _ \<Rightarrow> Inl TypeError)"

text \<open>Truth value of a Python object, as \<^verbatim>\<open>x or {}\<close> tests it.\<close>

fun py_truthy :: "json \<Rightarrow> bool" where
  "py_truthy JNull = False"
| "py_truthy (JBool b) = b"
| "py_truthy (JNum n) = (n \<noteq> 0)"
| "py_truthy (JFloat x) = (x \<noteq> 0)"
| "py_truthy (JStr s) = (s \<noteq> [])"
| "py_truthy (JArr xs) = (xs \<noteq> [])"
| "py_truthy (JObj items) = (items \<noteq> [])"

text \<open>\<^verbatim>\<open>str(n)\<close> of a Python int: decimal digits, a minus sign when negative.\<close>

definition digit_char :: "nat \<Rightarrow> char" where
  "digit_char d = char_of (48 + d)"

fun str_nat :: "nat \<Rightarrow> string" where
  "str_nat n = (if n < 10 then [digit_char n] else str_nat (n div 10) @ [digit_char (n mod 10)])"

definition str_int :: "int \<Rightarrow> string" where
  "str_int i = (if i < 0 then CHR ''-'' # str_nat (nat (- i)) else str_nat (nat i))"

text \<open>
  \<^verbatim>\<open>str(v)\<close> of a decoded JSON value, where it is modelled: \<open>None\<close> for a float, a list and
  a dict, whose rendering is not; it is never empty and never a decimal integer
  (it holds a point, an exponent or a letter, or starts with a bracket).
\<close>

fun py_str :: "json \<Rightarrow> string option" where
  "py_str JNull = Some ''None''"
| "py_str (JBool b) = Some (if b then ''True'' else ''False'')"
| "py_str (JNum n) = Some (str_int n)"
| "py_str (JStr s) = Some s"
| "py_str (JFloat x) = None"
| "py_str (JArr xs) = None"
| "py_str (JObj items) = None"

declare str_nat.simps [simp del]

section \<open>The payment gateway client\<close>

text \<open>
  What the handlers can observe of one HTTP exchange: \<^verbatim>\<open>resp.status\<close>, \<^verbatim>\<open>resp.text()\<close>
  and the value \<^verbatim>\<open>json.loads\<close> makes of that text (\<open>None\<close> when the text is not JSON).
\<close>

record http_response =
  http_status :: nat
  text_body :: string
  loaded :: "json option"

text \<open>
  The processor behind \<^verbatim>\<open>https://api.yookassa.ru/v3/payments\<close>: its answer to the
  \<^verbatim>\<open>POST\<close> that carries the idempotence key and \<^verbatim>\<open>metadata.tg_user_id\<close> (amount, currency,
  description, return URL and payment method are configuration constants), and its
  answer to \<^verbatim>\<open>GET /payments/{payment_id}\<close>. \<open>Inl\<close> is an exception of the session
  (connection error, timeout).
\<close>

record gateway =
  post_payments :: "string \<Rightarrow> string \<Rightarrow> exn + http_response"
  get_payments :: "string \<Rightarrow> exn + http_response"

text \<open>The code after the request: lines 192-195 and 206-209.\<close>

definition read_response :: "exn + http_response \<Rightarrow> exn + json" where
  "read_response r =
     (case r of
        Inl e \<Rightarrow> Inl e
      | Inr resp \<Rightarrow>
          if http_status resp \<ge> 400 then Inl (YooKassaError (http_status resp) (text_body resp))
          else (case loaded resp of None \<Rightarrow> Inl JSONDecodeError | Some v \<Rightarrow> Inr v))"

definition yk_create_payment :: "gateway \<Rightarrow> string \<Rightarrow> int \<Rightarrow> exn + json" where
  "yk_create_payment gw idempotence_key user_id =
     read_response (post_payments gw idempotence_key (str_int user_id))"

definition yk_get_payment :: "gateway \<Rightarrow> string \<Rightarrow> exn + json" where
  "yk_get_payment gw pid = read_response (get_payments gw pid)"

section \<open>The callback handlers\<close>

text \<open>
  What a handler needs from outside: the readings of \<^verbatim>\<open>now_utc()\<close> in call order, the
  \<^verbatim>\<open>uuid.uuid4()\<close> drawn for the idempotence key, the gateway, and what
  \<^verbatim>\<open>bot.create_chat_invite_link\<close> does when called (\<open>Inr\<close> the link of the invite).
  The database statements of the handlers are taken to succeed; what a failing statement
  does is followed for \<^verbatim>\<open>remove_user\<close>, whose two statements share a transaction.
\<close>

record env =
  clock :: "nat \<Rightarrow> timestamp"
  uuid4 :: string
  yookassa :: gateway
  create_chat_invite_link :: "exn + string"

text \<open>The calls a handler makes to the gateway and to the AccessGranter, in order.\<close>

datatype call =
    PostPayment string int
  | GetPayment string
  | CreateInvite

text \<open>
  The message a handler answers with, by its text; the interpolated values are kept, the
  keyboard (\<^verbatim>\<open>menu_kb\<close>, which only reads \<^verbatim>\<open>get_subscribed\<close>) is not.
\<close>

datatype reply =
    Welcome bool                  \<comment> \<open>\<^verbatim>\<open>/start\<close>, with the subscription flag shown\<close>
  | Menu bool                     \<comment> \<open>\<^verbatim>\<open>/menu\<close>\<close>
  | GatewayError exn              \<comment> \<open>the caught exception, printed as it is\<close>
  | PaymentCreated json string    \<comment> \<open>confirmation URL and payment id\<close>
  | NoPendingPayment
  | Confirmed
  | InProgress
  | Failed json                   \<comment> \<open>the status printed\<close>
  | OwnershipMismatch
  | NotConfirmed "json option"    \<comment> \<open>the status printed (\<open>None\<close> is Python's None)\<close>
  | GrantFailed exn
  | Granted string

text \<open>
  A finished handler: the Ledger it leaves, its answer (\<open>Inl\<close> an exception no
  \<^verbatim>\<open>except\<close> caught), and its calls.
\<close>

record result =
  ledger_after :: ledger
  answer :: "exn + reply"
  calls :: "call list"

definition cmd_start :: "env \<Rightarrow> int \<Rightarrow> ledger \<Rightarrow> result" where
  "cmd_start E user_id L =
     (let L1 = upsert_user (clock E 0) user_id L in
      \<lparr>ledger_after = L1, answer = Inr (Welcome (get_subscribed user_id L1)), calls = []\<rparr>)"

definition cmd_menu :: "env \<Rightarrow> int \<Rightarrow> ledger \<Rightarrow> result" where
  "cmd_menu E user_id L =
     (let L1 = upsert_user (clock E 0) user_id L in
      \<lparr>ledger_after = L1, answer = Inr (Menu (get_subscribed user_id L1)), calls = []\<rparr>)"

definition cb_pay :: "env \<Rightarrow> int \<Rightarrow> ledger \<Rightarrow> result" where
  "cb_pay E user_id L =
     (let L1 = upsert_user (clock E 0) user_id L;
          cs = [PostPayment (uuid4 E) user_id] in
      case yk_create_payment (yookassa E) (uuid4 E) user_id of
        Inl e \<Rightarrow> \<lparr>ledger_after = L1, answer = Inr (GatewayError e), calls = cs\<rparr>
      | Inr payment \<Rightarrow>
          (case py_subscript payment ''id'' of
             Inl e \<Rightarrow> \<lparr>ledger_after = L1, answer = Inl e, calls = cs\<rparr>
           | Inr (JStr pid) \<Rightarrow>
               (let L2 = save_last_payment (clock E 1) user_id pid L1 in
                case py_subscript payment ''confirmation'' of
                  Inl e \<Rightarrow> \<lparr>ledger_after = L2, answer = Inl e, calls = cs\<rparr>
                | Inr confirmation \<Rightarrow>
                    (case py_subscript confirmation ''confirmation_url'' of
                       Inl e \<Rightarrow> \<lparr>ledger_after = L2, answer = Inl e, calls = cs\<rparr>
                     | Inr url \<Rightarrow>
                         \<lparr>ledger_after = L2, answer = Inr (PaymentCreated url pid), calls = cs\<rparr>))
           | Inr _ \<Rightarrow> \<lparr>ledger_after = L1, answer = Inl DataError, calls = cs\<rparr>))"

text \<open>
  \<^verbatim>\<open>if not payment_id\<close> holds for \<^verbatim>\<open>None\<close> and for the empty string. The status is
  \<^verbatim>\<open>payment.get("status", "unknown")\<close>.
\<close>

definition cb_check :: "env \<Rightarrow> int \<Rightarrow> ledger \<Rightarrow> result" where
  "cb_check E user_id L =
     (let L1 = upsert_user (clock E 0) user_id L in
      case get_last_payment user_id L1 of
        None \<Rightarrow> \<lparr>ledger_after = L1, answer = Inr NoPendingPayment, calls = []\<rparr>
      | Some pid \<Rightarrow>
          if pid = [] then \<lparr>ledger_after = L1, answer = Inr NoPendingPayment, calls = []\<rparr>
          else
            (case yk_get_payment (yookassa E) pid of
               Inl e \<Rightarrow> \<lparr>ledger_after = L1, answer = Inr (GatewayError e), calls = [GetPayment pid]\<rparr>
             | Inr payment \<Rightarrow>
                 (case py_get payment ''status'' of
                    Inl e \<Rightarrow> \<lparr>ledger_after = L1, answer = Inl e, calls = [GetPayment pid]\<rparr>
                  | Inr st \<Rightarrow>
                      (let status = (case st of None \<Rightarrow> JStr ''unknown'' | Some v \<Rightarrow> v) in
                       \<lparr>ledger_after = L1,
                        answer = Inr
                          (if status = JStr ''succeeded'' then Confirmed
                           else if status = JStr ''pending'' \<or> status = JStr ''waiting_for_capture''
                           then InProgress
                           else Failed status),
                        calls = [GetPayment pid]\<rparr>))))"

text \<open>\<^verbatim>\<open>str(meta.get("tg_user_id", "")) not in ("", str(user_id))\<close>.\<close>

definition not_owner :: "json option \<Rightarrow> int \<Rightarrow> bool" where
  "not_owner tg_user_id user_id =
     (case py_str (case tg_user_id of None \<Rightarrow> JStr [] | Some v \<Rightarrow> v) of
        None \<Rightarrow> True
      | Some s \<Rightarrow> s \<noteq> [] \<and> s \<noteq> str_int user_id)"

text \<open>\<^verbatim>\<open>issue_invite_link\<close>: one call of \<^verbatim>\<open>bot.create_chat_invite_link\<close>, member limit 1.\<close>

definition issue_invite_link :: "env \<Rightarrow> exn + string" where
  "issue_invite_link E = create_chat_invite_link E"

definition cb_access :: "env \<Rightarrow> int \<Rightarrow> ledger \<Rightarrow> result" where
  "cb_access E user_id L =
     (let L1 = upsert_user (clock E 0) user_id L in
      case get_last_payment user_id L1 of
        None \<Rightarrow> \<lparr>ledger_after = L1, answer = Inr NoPendingPayment, calls = []\<rparr>
      | Some pid \<Rightarrow>
          if pid = [] then \<lparr>ledger_after = L1, answer = Inr NoPendingPayment, calls = []\<rparr>
          else
            (case yk_get_payment (yookassa E) pid of
               Inl e \<Rightarrow> \<lparr>ledger_after = L1, answer = Inr (GatewayError e), calls = [GetPayment pid]\<rparr>
             | Inr payment \<Rightarrow>
                 (case py_get payment ''status'' of
                    Inl e \<Rightarrow> \<lparr>ledger_after = L1, answer = Inl e, calls = [GetPayment pid]\<rparr>
                  | Inr status \<Rightarrow>
                      (case py_get payment ''metadata'' of
                         Inl e \<Rightarrow> \<lparr>ledger_after = L1, answer = Inl e, calls = [GetPayment pid]\<rparr>
                       | Inr m \<Rightarrow>
                           (let meta = (case m of None \<Rightarrow> JObj []
                                        | Some v \<Rightarrow> if py_truthy v then v else JObj []) in
                            case py_get meta ''tg_user_id'' of
                              Inl e \<Rightarrow> \<lparr>ledger_after = L1, answer = Inl e, calls = [GetPayment pid]\<rparr>
                            | Inr tg \<Rightarrow>
                                if not_owner tg user_id
                                then \<lparr>ledger_after = L1, answer = Inr OwnershipMismatch,
                                      calls = [GetPayment pid]\<rparr>
                                else if status \<noteq> Some (JStr ''succeeded'')
                                then \<lparr>ledger_after = L1, answer = Inr (NotConfirmed status),
                                      calls = [GetPayment pid]\<rparr>
                                else
                                  (case issue_invite_link E of
                                     Inl e \<Rightarrow> \<lparr>ledger_after = L1, answer = Inr (GrantFailed e),
                                               calls = [GetPayment pid, CreateInvite]\<rparr>
                                   | Inr link \<Rightarrow> \<lparr>ledger_after = L1, answer = Inr (Granted link),
                                                  calls = [GetPayment pid, CreateInvite]\<rparr>))))))"

section \<open>The cascading delete and its transaction\<close>

text \<open>
  \<^verbatim>\<open>remove_user\<close> statement by statement: the connection is acquired, the transaction is
  opened, the two \<^verbatim>\<open>DELETE\<close>s run, the transaction commits. Any of the five steps may
  raise; \<open>fails\<close> says which do. \<^verbatim>\<open>async with conn.transaction()\<close> rolls the work back
  when its body raises, and nothing is applied when the commit itself fails.
\<close>

datatype db_step = Acquire | Begin | DeleteUsers | DeletePayments | Commit

datatype db_error = PostgresError db_step

definition execute :: "(db_step \<Rightarrow> bool) \<Rightarrow> db_step \<Rightarrow> (ledger \<Rightarrow> ledger) \<Rightarrow> ledger \<Rightarrow> db_error + ledger" where
  "execute fails step stmt L = (if fails step then Inl (PostgresError step) else Inr (stmt L))"

definition transaction ::
  "(db_step \<Rightarrow> bool) \<Rightarrow> (ledger \<Rightarrow> db_error + ledger) \<Rightarrow> ledger \<Rightarrow> ledger \<times> db_error option" where
  "transaction fails body L =
     (if fails Begin then (L, Some (PostgresError Begin))
      else
        (case body L of
           Inl e \<Rightarrow> (L, Some e)
         | Inr L' \<Rightarrow> if fails Commit then (L, Some (PostgresError Commit)) else (L', None)))"

definition remove_user_tx :: "(db_step \<Rightarrow> bool) \<Rightarrow> int \<Rightarrow> ledger \<Rightarrow> ledger \<times> db_error option" where
  "remove_user_tx fails user_id L =
     (if fails Acquire then (L, Some (PostgresError Acquire))
      else
        transaction fails
          (\<lambda>L0. case execute fails DeleteUsers
                       (\<lambda>T. T\<lparr>users := delete_where user_id (users T)\<rparr>) L0 of
                  Inl e \<Rightarrow> Inl e
                | Inr L1 \<Rightarrow>
                    execute fails DeletePayments
                      (\<lambda>T. T\<lparr>payments := delete_where user_id (payments T)\<rparr>) L1)
          L)"

section \<open>The broadcasts\<close>

text \<open>
  One delivery attempt (\<^verbatim>\<open>bot.send_message(uid, text)\<close> or \<^verbatim>\<open>src.copy_to(chat_id=uid)\<close>)
  returns, or raises one of the exceptions the loop tells apart. The transport is a
  state \<open>'w\<close> that each attempt may change, so two attempts to one recipient can differ.
\<close>

datatype send_result =
    Delivered
  | TelegramForbiddenError
  | TelegramRetryAfter int   \<comment> \<open>\<^verbatim>\<open>e.retry_after\<close>, in seconds\<close>
  | OtherException

text \<open>What the loop does that can be seen from outside: attempts and sleeps, in seconds.\<close>

datatype event = Attempt int | Sleep real

record 'w run =
  ok :: nat
  blocked :: nat
  failed :: nat
  run_ledger :: ledger
  transport :: 'w
  events :: "event list"

text \<open>The recipients of the attempts in a trace, in order.\<close>

fun attempted :: "event list \<Rightarrow> int list" where
  "attempted [] = []"
| "attempted (Attempt uid # evs) = uid # attempted evs"
| "attempted (Sleep d # evs) = attempted evs"

text \<open>The body of the \<^verbatim>\<open>for uid in subscribers\<close> loop (lines 443-458 and 489-504).\<close>

definition deliver :: "(int \<Rightarrow> 'w \<Rightarrow> send_result \<times> 'w) \<Rightarrow> 'w run \<Rightarrow> int \<Rightarrow> 'w run" where
  "deliver send r uid =
     (case send uid (transport r) of
        (Delivered, w1) \<Rightarrow>
          r\<lparr>ok := ok r + 1, transport := w1,
            events := events r @ [Attempt uid, Sleep 0.05]\<rparr>
      | (TelegramForbiddenError, w1) \<Rightarrow>
          r\<lparr>blocked := blocked r + 1, run_ledger := remove_user uid (run_ledger r),
            transport := w1, events := events r @ [Attempt uid]\<rparr>
      | (TelegramRetryAfter retry_after, w1) \<Rightarrow>
          (case send uid w1 of
             (Delivered, w2) \<Rightarrow>
               r\<lparr>ok := ok r + 1, transport := w2,
                 events := events r @
                   [Attempt uid, Sleep (real_of_int retry_after + 0.5), Attempt uid]\<rparr>
           | (_, w2) \<Rightarrow>
               r\<lparr>failed := failed r + 1, transport := w2,
                 events := events r @
                   [Attempt uid, Sleep (real_of_int retry_after + 0.5), Attempt uid]\<rparr>)
      | (OtherException, w1) \<Rightarrow>
          r\<lparr>failed := failed r + 1, transport := w1, events := events r @ [Attempt uid]\<rparr>)"

fun broadcast_loop :: "(int \<Rightarrow> 'w \<Rightarrow> send_result \<times> 'w) \<Rightarrow> int list \<Rightarrow> 'w run \<Rightarrow> 'w run" where
  "broadcast_loop send [] r = r"
| "broadcast_loop send (uid # uids) r = broadcast_loop send uids (deliver send r uid)"

text \<open>
  The recipients of a run whose first attempt is refused (TelegramForbiddenError), in
  order: the loop is followed recipient by recipient, and the first attempt to each is
  read off the transport in the state the loop has reached.
\<close>

fun refused :: "(int \<Rightarrow> 'w \<Rightarrow> send_result \<times> 'w) \<Rightarrow> int list \<Rightarrow> 'w run \<Rightarrow> int list" where
  "refused send [] r = []"
| "refused send (uid # uids) r =
     (if fst (send uid (transport r)) = TelegramForbiddenError
      then uid # refused send uids (deliver send r uid)
      else refused send uids (deliver send r uid))"

text \<open>\<^verbatim>\<open>ok = blocked = failed = 0\<close>.\<close>

definition start_run :: "ledger \<Rightarrow> 'w \<Rightarrow> 'w run" where
  "start_run L w = \<lparr>ok = 0, blocked = 0, failed = 0, run_ledger = L, transport = w, events = []\<rparr>"

text \<open>
  The admin's answer: the refusals, or the report with the number of subscribers
  announced at the start and the three counters.
\<close>

datatype broadcast_reply =
    AccessDenied
  | Usage
  | NoSubscribers
  | Report nat nat nat nat

text \<open>
  The Bot API as the broadcasts use it. \<open>ADMIN_ID\<close> is a constant of the configuration
  module, taken as a parameter.
\<close>

record ('w, 'm) bot =
  send_message :: "string \<Rightarrow> int \<Rightarrow> 'w \<Rightarrow> send_result \<times> 'w"
  copy_to :: "'m \<Rightarrow> int \<Rightarrow> 'w \<Rightarrow> send_result \<times> 'w"

definition is_admin :: "int \<Rightarrow> int \<Rightarrow> bool" where
  "is_admin ADMIN_ID user_id = (user_id = ADMIN_ID)"

definition report :: "nat \<Rightarrow> 'w run \<Rightarrow> broadcast_reply \<times> 'w run" where
  "report n r = (Report n (ok r) (blocked r) (failed r), r)"

text \<open>
  \<^verbatim>\<open>/broadcast\<close>: \<open>arg\<close> is \<^verbatim>\<open>parts[1].strip()\<close>, \<open>None\<close> when the command has no argument
  (\<^verbatim>\<open>len(parts) < 2\<close>).
\<close>

definition cmd_broadcast ::
  "int \<Rightarrow> ('w, 'm) bot \<Rightarrow> int \<Rightarrow> string option \<Rightarrow> ledger \<Rightarrow> 'w \<Rightarrow> broadcast_reply \<times> 'w run" where
  "cmd_broadcast ADMIN_ID b from_user arg L w =
     (if \<not> is_admin ADMIN_ID from_user then (AccessDenied, start_run L w)
      else
        (case arg of
           None \<Rightarrow> (Usage, start_run L w)
         | Some txt \<Rightarrow>
             (let subscribers = get_subscribers L in
              if subscribers = [] then (NoSubscribers, start_run L w)
              else report (length subscribers)
                     (broadcast_loop (send_message b txt) subscribers (start_run L w)))))"

text \<open>\<^verbatim>\<open>/broadcast_here\<close>: \<open>reply_to\<close> is \<^verbatim>\<open>message.reply_to_message\<close>.\<close>

definition cmd_broadcast_here ::
  "int \<Rightarrow> ('w, 'm) bot \<Rightarrow> int \<Rightarrow> 'm option \<Rightarrow> ledger \<Rightarrow> 'w \<Rightarrow> broadcast_reply \<times> 'w run" where
  "cmd_broadcast_here ADMIN_ID b from_user reply_to L w =
     (if \<not> is_admin ADMIN_ID from_user then (AccessDenied, start_run L w)
      else
        (case reply_to of
           None \<Rightarrow> (Usage, start_run L w)
         | Some src \<Rightarrow>
             (let subscribers = get_subscribers L in
              if subscribers = [] then (NoSubscribers, start_run L w)
              else report (length subscribers)
                     (broadcast_loop (copy_to b src) subscribers (start_run L w)))))"

section \<open>Pressing the access button again\<close>

text \<open>
  Successive \<^verbatim>\<open>access\<close> callbacks of one user: each runs in its own environment (the
  gateway and the invite call may answer differently each time) on the Ledger the
  previous one left.
\<close>

fun access_repeatedly :: "env list \<Rightarrow> int \<Rightarrow> ledger \<Rightarrow> result list" where
  "access_repeatedly [] user_id L = []"
| "access_repeatedly (E # Es) user_id L =
     cb_access E user_id L # access_repeatedly Es user_id (ledger_after (cb_access E user_id L))"

section \<open>Concrete inputs\<close>

text \<open>
  The inputs the theorems below are run on: a payment as the gateway describes it, a
  gateway that gives one answer to every request, an environment around it, and two
  Ledgers.
\<close>

definition payment_json :: "string \<Rightarrow> string \<Rightarrow> string \<Rightarrow> json" where
  "payment_json pid st owner =
     JObj [(''id'', JStr pid), (''status'', JStr st),
           (''confirmation'', JObj [(''confirmation_url'', JStr ''https://pay.example/confirm'')]),
           (''metadata'', JObj [(''tg_user_id'', JStr owner)])]"

definition answering :: "nat \<Rightarrow> string \<Rightarrow> json option \<Rightarrow> gateway" where
  "answering code txt body =
     \<lparr>post_payments = (\<lambda>key owner. Inr \<lparr>http_status = code, text_body = txt, loaded = body\<rparr>),
      get_payments = (\<lambda>pid. Inr \<lparr>http_status = code, text_body = txt, loaded = body\<rparr>)\<rparr>"

definition example_env :: "gateway \<Rightarrow> exn + string \<Rightarrow> env" where
  "example_env gw invite =
     \<lparr>clock = (\<lambda>k. 1000 + int k), uuid4 = ''key-1'', yookassa = gw,
      create_chat_invite_link = invite\<rparr>"

definition empty_ledger :: ledger where
  "empty_ledger = \<lparr>users = [], payments = []\<rparr>"

definition ledger_with :: "int \<Rightarrow> bool \<Rightarrow> string \<Rightarrow> ledger" where
  "ledger_with u sub pid =
     \<lparr>users = [(u, \<lparr>is_subscribed = sub, created_at = 1, updated_at = 2\<rparr>)],
      payments = [(u, \<lparr>payment_id = pid, pay_updated_at = 3\<rparr>)]\<rparr>"

text \<open>
  A transport that plays a script: its state is the list of the outcomes still to come,
  one per attempt, whoever the recipient is; when the script is over every attempt
  raises.
\<close>

definition scripted :: "int \<Rightarrow> send_result list \<Rightarrow> send_result \<times> send_result list" where
  "scripted uid script = (case script of [] \<Rightarrow> (OtherException, []) | x # rest \<Rightarrow> (x, rest))"

definition scripted_bot :: "(send_result list, unit) bot" where
  "scripted_bot = \<lparr>send_message = (\<lambda>txt. scripted), copy_to = (\<lambda>src. scripted)\<rparr>"

definition three_subscribers :: ledger where
  "three_subscribers =
     \<lparr>users = [(1, \<lparr>is_subscribed = True, created_at = 1, updated_at = 1\<rparr>),
               (2, \<lparr>is_subscribed = True, created_at = 2, updated_at = 2\<rparr>),
               (3, \<lparr>is_subscribed = False, created_at = 3, updated_at = 3\<rparr>),
               (4, \<lparr>is_subscribed = True, created_at = 4, updated_at = 4\<rparr>)],
      payments = [(2, \<lparr>payment_id = ''tx-2'', pay_updated_at = 2\<rparr>),
                  (4, \<lparr>payment_id = ''tx-4'', pay_updated_at = 4\<rparr>)]\<rparr>"

section \<open>The tables under the Ledger operations\<close>

lemma map_of_insert_on_conflict:
  "map_of (insert_on_conflict k v f rows) =
     (map_of rows)(k \<mapsto> (case map_of rows k of None \<Rightarrow> v | Some v' \<Rightarrow> f v'))"
  by (induction rows) (auto simp: fun_eq_iff)

lemma map_of_delete_where: "map_of (delete_where k rows) = (map_of rows)(k := None)"
  by (induction rows) (auto simp: delete_where_def fun_eq_iff)

lemma keys_filter_insert_on_conflict:
  assumes "\<not> P v" and "\<And>x. P (f x) = P x"
  shows "map fst (filter (\<lambda>row. P (snd row)) (insert_on_conflict k v f rows)) =
         map fst (filter (\<lambda>row. P (snd row)) rows)"
  using assms by (induction rows) auto

lemma map_of_users_upsert_user:
  "map_of (users (upsert_user now u L)) =
     (map_of (users L))(u \<mapsto>
        (case map_of (users L) u of
           None \<Rightarrow> \<lparr>is_subscribed = False, created_at = now, updated_at = now\<rparr>
         | Some row \<Rightarrow> row\<lparr>updated_at := now\<rparr>))"
  by (simp add: upsert_user_def map_of_insert_on_conflict)

lemma get_subscribers_upsert_user: "get_subscribers (upsert_user now u L) = get_subscribers L"
  by (simp add: get_subscribers_def upsert_user_def keys_filter_insert_on_conflict)

lemma get_subscribed_upsert_user: "get_subscribed v (upsert_user now u L) = get_subscribed v L"
  by (simp add: get_subscribed_def upsert_user_def map_of_insert_on_conflict split: option.splits)

lemma payments_upsert_user: "payments (upsert_user now u L) = payments L"
  by (simp add: upsert_user_def)

lemma get_last_payment_upsert_user:
  "get_last_payment v (upsert_user now u L) = get_last_payment v L"
  by (simp add: get_last_payment_def payments_upsert_user)

lemma users_save_last_payment: "users (save_last_payment now u pid L) = users L"
  by (simp add: save_last_payment_def)

lemma get_subscribers_save_last_payment:
  "get_subscribers (save_last_payment now u pid L) = get_subscribers L"
  by (simp add: get_subscribers_def users_save_last_payment)

lemma get_subscribed_save_last_payment:
  "get_subscribed v (save_last_payment now u pid L) = get_subscribed v L"
  by (simp add: get_subscribed_def users_save_last_payment)

section \<open>What each handler leaves in the Ledger\<close>

lemma ledger_after_cmd_start: "ledger_after (cmd_start E u L) = upsert_user (clock E 0) u L"
  by (simp add: cmd_start_def Let_def)

lemma ledger_after_cmd_menu: "ledger_after (cmd_menu E u L) = upsert_user (clock E 0) u L"
  by (simp add: cmd_menu_def Let_def)

lemma ledger_after_cb_check: "ledger_after (cb_check E u L) = upsert_user (clock E 0) u L"
  by (simp add: cb_check_def Let_def split: option.splits sum.splits)

lemma ledger_after_cb_access: "ledger_after (cb_access E u L) = upsert_user (clock E 0) u L"
  by (simp add: cb_access_def Let_def split: option.splits sum.splits)

lemma users_after_cb_pay:
  "users (ledger_after (cb_pay E u L)) = users (upsert_user (clock E 0) u L)"
  by (simp add: cb_pay_def Let_def users_save_last_payment
      split: option.splits sum.splits json.splits)

lemma get_subscribed_after_cb_pay:
  "get_subscribed v (ledger_after (cb_pay E u L)) = get_subscribed v L"
  using get_subscribed_upsert_user [of v "clock E 0" u L]
  by (simp add: get_subscribed_def users_after_cb_pay)

lemma get_subscribers_after_cb_pay:
  "get_subscribers (ledger_after (cb_pay E u L)) = get_subscribers L"
  using get_subscribers_upsert_user [of "clock E 0" u L]
  by (simp add: get_subscribers_def users_after_cb_pay)

text \<open>
  C10. Upserting a user that has a row keeps the row but for \<open>updated_at\<close>, so the
  subscription flag stays; a user with no row gets one with \<open>is_subscribed = False\<close>; no
  other row changes. Hence \<^verbatim>\<open>/start\<close>, \<^verbatim>\<open>/menu\<close>, pay, check and access leave every user's
  subscription status, and the list of subscribers, as they were.
\<close>

theorem upsert_preserves_subscription:
  "map_of (users (upsert_user now u L)) =
     (map_of (users L))(u \<mapsto>
        (case map_of (users L) u of
           None \<Rightarrow> \<lparr>is_subscribed = False, created_at = now, updated_at = now\<rparr>
         | Some row \<Rightarrow> row\<lparr>updated_at := now\<rparr>))
   \<and> (\<forall>v. get_subscribed v (ledger_after (cmd_start E u L)) = get_subscribed v L)
   \<and> (\<forall>v. get_subscribed v (ledger_after (cmd_menu E u L)) = get_subscribed v L)
   \<and> (\<forall>v. get_subscribed v (ledger_after (cb_pay E u L)) = get_subscribed v L)
   \<and> (\<forall>v. get_subscribed v (ledger_after (cb_check E u L)) = get_subscribed v L)
   \<and> (\<forall>v. get_subscribed v (ledger_after (cb_access E u L)) = get_subscribed v L)
   \<and> get_subscribers (ledger_after (cmd_start E u L)) = get_subscribers L
   \<and> get_subscribers (ledger_after (cmd_menu E u L)) = get_subscribers L
   \<and> get_subscribers (ledger_after (cb_pay E u L)) = get_subscribers L
   \<and> get_subscribers (ledger_after (cb_check E u L)) = get_subscribers L
   \<and> get_subscribers (ledger_after (cb_access E u L)) = get_subscribers L"
  by (simp add: map_of_users_upsert_user ledger_after_cmd_start ledger_after_cmd_menu
      ledger_after_cb_check ledger_after_cb_access get_subscribed_upsert_user
      get_subscribers_upsert_user get_subscribed_after_cb_pay get_subscribers_after_cb_pay)

text \<open>
  C5, as stated: check leaves the users table as it found it. It does not: the handler
  starts with \<^verbatim>\<open>upsert_user\<close>, so a first-time user gets a row.
\<close>

theorem check_mutates_users_counterexample:
  "users (ledger_after
     (cb_check (example_env (answering 200 [] (Some (payment_json ''tx-1'' ''pending'' ''42'')))
        (Inr ''link'')) 42 empty_ledger)) \<noteq> users empty_ledger"
  by (simp add: cb_check_def upsert_user_def get_last_payment_def empty_ledger_def Let_def)

text \<open>
  C5, amended: whatever it answers, check leaves the payments table untouched, and its
  only write is the upsert of the calling user: the Ledger after is the Ledger before
  with that user's row created (unsubscribed) or its \<open>updated_at\<close> refreshed, so no
  subscription flag and no other row changes.
\<close>

theorem check_only_upserts_caller:
  "ledger_after (cb_check E u L) = upsert_user (clock E 0) u L
   \<and> payments (ledger_after (cb_check E u L)) = payments L
   \<and> map_of (users (ledger_after (cb_check E u L))) =
       (map_of (users L))(u \<mapsto>
          (case map_of (users L) u of
             None \<Rightarrow> \<lparr>is_subscribed = False, created_at = clock E 0, updated_at = clock E 0\<rparr>
           | Some row \<Rightarrow> row\<lparr>updated_at := clock E 0\<rparr>))
   \<and> get_subscribers (ledger_after (cb_check E u L)) = get_subscribers L"
  by (simp add: ledger_after_cb_check payments_upsert_user map_of_users_upsert_user
      get_subscribers_upsert_user)

section \<open>The payment handlers\<close>

lemma str_int_42: "str_int 42 = ''42''"
  by code_simp

lemma get_last_payment_save_last_payment:
  "get_last_payment v (save_last_payment now u pid L) =
     (if v = u then Some pid else get_last_payment v L)"
  by (simp add: get_last_payment_def save_last_payment_def map_of_insert_on_conflict
      split: option.splits)

lemma yk_get_payment_answering:
  "code < 400 \<Longrightarrow> yk_get_payment (yookassa (example_env (answering code txt (Some j)) invite)) pid = Inr j"
  by (simp add: yk_get_payment_def read_response_def example_env_def answering_def)

lemma yk_create_payment_answering:
  "yk_create_payment (yookassa (example_env (answering code txt body) invite)) key u =
     (if 400 \<le> code then Inl (YooKassaError code txt)
      else case body of None \<Rightarrow> Inl JSONDecodeError | Some j \<Rightarrow> Inr j)"
  by (simp add: yk_create_payment_def read_response_def example_env_def answering_def)

lemma invite_example_env: "create_chat_invite_link (example_env gw invite) = invite"
  by (simp add: example_env_def)

lemma get_last_payment_ledger_with: "get_last_payment u (ledger_with u sub pid) = Some pid"
  by (simp add: get_last_payment_def ledger_with_def)

text \<open>
  C1, as stated: check answers NoPendingPayment exactly when no payment reference is
  stored for the user. A stored row whose \<open>payment_id\<close> is the empty string is answered
  the same way, since the test is \<^verbatim>\<open>if not payment_id\<close>.
\<close>

theorem no_pending_counterexample:
  "answer (cb_check (example_env (answering 200 [] (Some (payment_json ''tx-1'' ''succeeded'' ''42'')))
        (Inr ''link'')) 42 (ledger_with 42 False [])) = Inr NoPendingPayment
   \<and> map_of (payments (ledger_with 42 False [])) 42 = Some \<lparr>payment_id = [], pay_updated_at = 3\<rparr>"
  by (simp add: cb_check_def upsert_user_def get_last_payment_def ledger_with_def Let_def)

text \<open>
  C1, amended: check answers NoPendingPayment exactly when the user has no payment row
  or the stored id is the empty string. Otherwise it fetches the stored transaction, and
  when the gateway returns it, the answer is Confirmed for status \<open>succeeded\<close>,
  InProgress for \<open>pending\<close> and \<open>waiting_for_capture\<close>, and Failed with the status for
  anything else (\<open>unknown\<close> when the transaction carries no status).
\<close>

theorem cb_check_outcome:
  "(answer (cb_check E u L) = Inr NoPendingPayment \<longleftrightarrow>
      get_last_payment u L = None \<or> get_last_payment u L = Some [])
   \<and> (get_last_payment u L = Some pid \<and> pid \<noteq> [] \<and>
        yk_get_payment (yookassa E) pid = Inr (JObj items) \<longrightarrow>
        calls (cb_check E u L) = [GetPayment pid] \<and>
        answer (cb_check E u L) =
          Inr (case map_of items ''status'' of
                 None \<Rightarrow> Failed (JStr ''unknown'')
               | Some st \<Rightarrow>
                   if st = JStr ''succeeded'' then Confirmed
                   else if st = JStr ''pending'' \<or> st = JStr ''waiting_for_capture'' then InProgress
                   else Failed st))"
  by (auto simp add: cb_check_def Let_def get_last_payment_upsert_user py_get_def
      split: option.splits sum.splits json.splits)

theorem cb_check_outcome_witness:
  "get_last_payment 42 (ledger_with 42 True ''tx-1'') = Some ''tx-1''
   \<and> answer (cb_check (example_env (answering 200 [] (Some (payment_json ''tx-1'' ''pending'' ''42'')))
        (Inr ''link'')) 42 (ledger_with 42 True ''tx-1'')) = Inr InProgress
   \<and> answer (cb_check (example_env (answering 200 [] (Some (payment_json ''tx-1'' ''succeeded'' ''42'')))
        (Inr ''link'')) 42 (ledger_with 42 True ''tx-1'')) = Inr Confirmed
   \<and> answer (cb_check (example_env (answering 200 [] (Some (payment_json ''tx-1'' ''canceled'' ''42'')))
        (Inr ''link'')) 42 (ledger_with 42 True ''tx-1'')) = Inr (Failed (JStr ''canceled''))
   \<and> answer (cb_check (example_env (answering 200 [] (Some (payment_json ''tx-1'' ''pending'' ''42'')))
        (Inr ''link'')) 42 empty_ledger) = Inr NoPendingPayment"
proof -
  have none: "get_last_payment 42 empty_ledger = None"
    by (simp add: get_last_payment_def empty_ledger_def)
  have fetched: "answer (cb_check (example_env (answering 200 [] (Some (payment_json ''tx-1'' st ''42'')))
        (Inr ''link'')) 42 (ledger_with 42 True ''tx-1'')) =
      Inr (if st = ''succeeded'' then Confirmed
           else if st = ''pending'' \<or> st = ''waiting_for_capture'' then InProgress
           else Failed (JStr st))" for st
    using cb_check_outcome [of
        "example_env (answering 200 [] (Some (payment_json ''tx-1'' st ''42''))) (Inr ''link'')"
        42 "ledger_with 42 True ''tx-1''" "''tx-1''"
        "[(''id'', JStr ''tx-1''), (''status'', JStr st),
          (''confirmation'', JObj [(''confirmation_url'', JStr ''https://pay.example/confirm'')]),
          (''metadata'', JObj [(''tg_user_id'', JStr ''42'')])]"]
    by (simp add: yk_get_payment_answering get_last_payment_ledger_with payment_json_def)
  show ?thesis
    using none fetched [of "''pending''"] fetched [of "''succeeded''"] fetched [of "''canceled''"]
      cb_check_outcome [of
        "example_env (answering 200 [] (Some (payment_json ''tx-1'' ''pending'' ''42''))) (Inr ''link'')"
        42 empty_ledger]
    by (simp add: get_last_payment_ledger_with)
qed


lemma cb_pay_refused:
  "yk_create_payment (yookassa E) (uuid4 E) u = Inl e \<Longrightarrow>
   answer (cb_pay E u L) = Inr (GatewayError e) \<and>
   payments (ledger_after (cb_pay E u L)) = payments L"
  by (simp add: cb_pay_def Let_def payments_upsert_user)

lemma yk_create_payment_error_status:
  "post_payments gw key (str_int u) = Inr resp \<Longrightarrow> 400 \<le> http_status resp \<Longrightarrow>
   yk_create_payment gw key u = Inl (YooKassaError (http_status resp) (text_body resp))"
  by (simp add: yk_create_payment_def read_response_def)

lemma reference_after_cb_pay:
  "yk_create_payment (yookassa E) (uuid4 E) u = Inr (JObj items) \<Longrightarrow>
   map_of items ''id'' = Some (JStr pid) \<Longrightarrow>
   get_last_payment v (ledger_after (cb_pay E u L)) =
     (if v = u then Some pid else get_last_payment v L)"
  by (simp add: cb_pay_def Let_def py_subscript_def get_last_payment_save_last_payment
      get_last_payment_upsert_user split: option.splits sum.splits json.splits)

text \<open>
  C2. When the create call comes back with a status of 400 or more (or fails in any
  other way), pay answers with the gateway error as raised and the payments table is as
  it was. When it returns a transaction with an id, that id is the user's payment
  reference afterwards, whatever was stored before, and no other user's reference
  changes.
\<close>

theorem cb_pay_persists:
  "(post_payments (yookassa E) (uuid4 E) (str_int u) = Inr resp \<and> 400 \<le> http_status resp \<longrightarrow>
      answer (cb_pay E u L) =
        Inr (GatewayError (YooKassaError (http_status resp) (text_body resp))) \<and>
      payments (ledger_after (cb_pay E u L)) = payments L)
   \<and> (yk_create_payment (yookassa E) (uuid4 E) u = Inl e \<longrightarrow>
      answer (cb_pay E u L) = Inr (GatewayError e) \<and>
      payments (ledger_after (cb_pay E u L)) = payments L)
   \<and> (yk_create_payment (yookassa E) (uuid4 E) u = Inr (JObj items) \<and>
      map_of items ''id'' = Some (JStr pid) \<longrightarrow>
      get_last_payment u (ledger_after (cb_pay E u L)) = Some pid \<and>
      (\<forall>v. v \<noteq> u \<longrightarrow> get_last_payment v (ledger_after (cb_pay E u L)) = get_last_payment v L))"
  using cb_pay_refused [of E u _ L]
    yk_create_payment_error_status [of "yookassa E" "uuid4 E" u resp]
    reference_after_cb_pay [of E u items pid _ L]
  by simp

theorem cb_pay_persists_witness:
  "answer (cb_pay (example_env (answering 401 ''denied'' None) (Inr ''link'')) 42
       (ledger_with 42 True ''tx-0'')) = Inr (GatewayError (YooKassaError 401 ''denied''))
   \<and> payments (ledger_after (cb_pay (example_env (answering 401 ''denied'' None) (Inr ''link'')) 42
       (ledger_with 42 True ''tx-0''))) = payments (ledger_with 42 True ''tx-0'')
   \<and> get_last_payment 42 (ledger_after
       (cb_pay (example_env (answering 200 [] (Some (payment_json ''tx-1'' ''pending'' ''42'')))
          (Inr ''link'')) 42 (ledger_with 42 True ''tx-0''))) = Some ''tx-1''
   \<and> get_last_payment 7 (ledger_after
       (cb_pay (example_env (answering 200 [] (Some (payment_json ''tx-1'' ''pending'' ''42'')))
          (Inr ''link'')) 42 (ledger_with 7 True ''tx-0''))) = Some ''tx-0''"
proof -
  have refused: "post_payments (yookassa (example_env (answering 401 ''denied'' None) (Inr ''link'')))
      (uuid4 (example_env (answering 401 ''denied'' None) (Inr ''link''))) (str_int 42) =
      Inr \<lparr>http_status = 401, text_body = ''denied'', loaded = None\<rparr>"
    by (simp add: example_env_def answering_def)
  have created: "yk_create_payment
      (yookassa (example_env (answering 200 [] (Some (payment_json ''tx-1'' ''pending'' ''42''))) (Inr ''link'')))
      (uuid4 (example_env (answering 200 [] (Some (payment_json ''tx-1'' ''pending'' ''42''))) (Inr ''link''))) 42 =
      Inr (JObj [(''id'', JStr ''tx-1''), (''status'', JStr ''pending''),
          (''confirmation'', JObj [(''confirmation_url'', JStr ''https://pay.example/confirm'')]),
          (''metadata'', JObj [(''tg_user_id'', JStr ''42'')])])"
    by (simp add: yk_create_payment_answering payment_json_def)
  show ?thesis
    using cb_pay_persists [of "example_env (answering 401 ''denied'' None) (Inr ''link'')" 42
        "\<lparr>http_status = 401, text_body = ''denied'', loaded = None\<rparr>" "ledger_with 42 True ''tx-0''"]
      cb_pay_persists [of
        "example_env (answering 200 [] (Some (payment_json ''tx-1'' ''pending'' ''42''))) (Inr ''link'')"
        42 _ "ledger_with 42 True ''tx-0''" _
        "[(''id'', JStr ''tx-1''), (''status'', JStr ''pending''),
          (''confirmation'', JObj [(''confirmation_url'', JStr ''https://pay.example/confirm'')]),
          (''metadata'', JObj [(''tg_user_id'', JStr ''42'')])]" "''tx-1''"]
      cb_pay_persists [of
        "example_env (answering 200 [] (Some (payment_json ''tx-1'' ''pending'' ''42''))) (Inr ''link'')"
        42 _ "ledger_with 7 True ''tx-0''" _
        "[(''id'', JStr ''tx-1''), (''status'', JStr ''pending''),
          (''confirmation'', JObj [(''confirmation_url'', JStr ''https://pay.example/confirm'')]),
          (''metadata'', JObj [(''tg_user_id'', JStr ''42'')])]" "''tx-1''"]
    by (simp add: refused created get_last_payment_ledger_with)
qed

lemma cb_access_fetched:
  assumes "get_last_payment u L = Some pid" "pid \<noteq> []"
    "yk_get_payment (yookassa E) pid = Inr (JObj items)"
  shows "cb_access E u L =
    (let L1 = upsert_user (clock E 0) u L; status = map_of items ''status'' in
     case py_get (case map_of items ''metadata'' of None \<Rightarrow> JObj []
                  | Some v \<Rightarrow> if py_truthy v then v else JObj []) ''tg_user_id'' of
       Inl e \<Rightarrow> \<lparr>ledger_after = L1, answer = Inl e, calls = [GetPayment pid]\<rparr>
     | Inr tg \<Rightarrow>
         if not_owner tg u
         then \<lparr>ledger_after = L1, answer = Inr OwnershipMismatch, calls = [GetPayment pid]\<rparr>
         else if status \<noteq> Some (JStr ''succeeded'')
         then \<lparr>ledger_after = L1, answer = Inr (NotConfirmed status), calls = [GetPayment pid]\<rparr>
         else (case create_chat_invite_link E of
                 Inl e \<Rightarrow> \<lparr>ledger_after = L1, answer = Inr (GrantFailed e),
                           calls = [GetPayment pid, CreateInvite]\<rparr>
               | Inr link \<Rightarrow> \<lparr>ledger_after = L1, answer = Inr (Granted link),
                              calls = [GetPayment pid, CreateInvite]\<rparr>))"
  using assms unfolding cb_access_def issue_invite_link_def
  by (simp add: Let_def get_last_payment_upsert_user py_get_def)

lemma mismatch_makes_no_invite:
  "answer (cb_access E u L) = Inr OwnershipMismatch \<Longrightarrow>
   CreateInvite \<notin> set (calls (cb_access E u L))"
  by (auto simp add: cb_access_def Let_def issue_invite_link_def
      split: option.splits sum.splits if_splits)

lemma cb_access_refused:
  assumes "get_last_payment u L = Some pid" "pid \<noteq> []"
    "yk_get_payment (yookassa E) pid = Inr (JObj items)"
    "map_of items ''metadata'' = Some (JObj meta)"
    "map_of meta ''tg_user_id'' = Some v"
    "py_str v \<noteq> Some []" "py_str v \<noteq> Some (str_int u)"
  shows "cb_access E u L =
    \<lparr>ledger_after = upsert_user (clock E 0) u L, answer = Inr OwnershipMismatch,
     calls = [GetPayment pid]\<rparr>"
proof -
  from assms(5) have "meta \<noteq> []" by auto
  moreover have "not_owner (Some v) u"
    using assms(6,7) by (cases "py_str v") (simp_all add: not_owner_def)
  ultimately show ?thesis
    using assms(4,5)
    by (simp add: cb_access_fetched [OF assms(1,2,3)] Let_def py_get_def)
qed

text \<open>
  The payments whose owner string is empty or \<open>str(user_id)\<close>: no metadata, metadata
  that is falsy (\<^verbatim>\<open>null\<close>, \<^verbatim>\<open>{}\<close>), metadata without the key, or a \<open>tg_user_id\<close> whose \<^verbatim>\<open>str\<close>
  is one of the two. For them the answer depends on the status and the invite call.
\<close>

lemma cb_access_accepted:
  assumes "get_last_payment u L = Some pid" "pid \<noteq> []"
    "yk_get_payment (yookassa E) pid = Inr (JObj items)"
    "map_of items ''metadata'' = None
     \<or> (map_of items ''metadata'' = Some m \<and> \<not> py_truthy m)
     \<or> (map_of items ''metadata'' = Some (JObj meta) \<and>
         (map_of meta ''tg_user_id'' = None
          \<or> (map_of meta ''tg_user_id'' = Some v \<and>
              (py_str v = Some [] \<or> py_str v = Some (str_int u)))))"
  shows "cb_access E u L =
    \<lparr>ledger_after = upsert_user (clock E 0) u L,
     answer = Inr (if map_of items ''status'' = Some (JStr ''succeeded'')
                   then (case create_chat_invite_link E of
                           Inl e \<Rightarrow> GrantFailed e | Inr link \<Rightarrow> Granted link)
                   else NotConfirmed (map_of items ''status'')),
     calls = (if map_of items ''status'' = Some (JStr ''succeeded'')
              then [GetPayment pid, CreateInvite] else [GetPayment pid])\<rparr>"
proof -
  have tg: "py_get (case map_of items ''metadata'' of None \<Rightarrow> JObj []
                  | Some x \<Rightarrow> if py_truthy x then x else JObj []) ''tg_user_id'' = Inr t
            \<and> \<not> not_owner t u"
    if "t = (case map_of items ''metadata'' of
               Some (JObj ms) \<Rightarrow> map_of ms ''tg_user_id'' | _ \<Rightarrow> None)" for t
  proof -
    consider (absent) "map_of items ''metadata'' = None"
      | (falsy) "map_of items ''metadata'' = Some m" "\<not> py_truthy m"
      | (nokey) "map_of items ''metadata'' = Some (JObj meta)" "map_of meta ''tg_user_id'' = None"
      | (named) "map_of items ''metadata'' = Some (JObj meta)" "map_of meta ''tg_user_id'' = Some v"
          "py_str v = Some [] \<or> py_str v = Some (str_int u)"
      using assms(4) by argo
    then show ?thesis
    proof cases
      case absent
      with that show ?thesis by (simp add: py_get_def not_owner_def)
    next
      case falsy
      with that show ?thesis
        by (cases m) (auto simp add: py_get_def not_owner_def)
    next
      case nokey
      with that show ?thesis by (auto simp add: py_get_def not_owner_def)
    next
      case named
      then have "meta \<noteq> []" by auto
      with that named show ?thesis by (auto simp add: py_get_def not_owner_def)
    qed
  qed
  from tg [OF refl] show ?thesis
    by (simp add: cb_access_fetched [OF assms(1,2,3)] Let_def split: sum.splits)
qed

text \<open>
  C3. When the stored transaction names an owner (\<^verbatim>\<open>str\<close> of its
  \<^verbatim>\<open>metadata["tg_user_id"]\<close>) that is neither empty nor the requesting user's id, access
  answers OwnershipMismatch and its only call is the fetch: the invite is never asked
  for. Whenever the answer is OwnershipMismatch no invite call was made. A transaction
  with empty owner metadata (no metadata at all, \<^verbatim>\<open>null\<close> or \<^verbatim>\<open>{}\<close>, metadata without the
  key, or an empty \<open>tg_user_id\<close>) passes the ownership test for any user: the answer then
  depends on the status alone.
\<close>

theorem cb_access_ownership:
  "(get_last_payment u L = Some pid \<and> pid \<noteq> [] \<and>
    yk_get_payment (yookassa E) pid = Inr (JObj items) \<and>
    map_of items ''metadata'' = Some (JObj meta) \<and>
    map_of meta ''tg_user_id'' = Some v \<and>
    py_str v \<noteq> Some [] \<and> py_str v \<noteq> Some (str_int u) \<longrightarrow>
      answer (cb_access E u L) = Inr OwnershipMismatch \<and>
      calls (cb_access E u L) = [GetPayment pid])
   \<and> (answer (cb_access E u L) = Inr OwnershipMismatch \<longrightarrow>
      CreateInvite \<notin> set (calls (cb_access E u L)))
   \<and> (get_last_payment u L = Some pid \<and> pid \<noteq> [] \<and>
    yk_get_payment (yookassa E) pid = Inr (JObj items) \<and>
    (map_of items ''metadata'' = None
     \<or> (map_of items ''metadata'' = Some m \<and> \<not> py_truthy m)
     \<or> (map_of items ''metadata'' = Some (JObj ms) \<and>
         (map_of ms ''tg_user_id'' = None
          \<or> (map_of ms ''tg_user_id'' = Some t \<and> py_str t = Some [])))) \<longrightarrow>
      answer (cb_access E u L) =
        Inr (if map_of items ''status'' = Some (JStr ''succeeded'')
             then (case create_chat_invite_link E of
                     Inl e \<Rightarrow> GrantFailed e | Inr link \<Rightarrow> Granted link)
             else NotConfirmed (map_of items ''status'')))"
proof (intro conjI impI)
  assume h: "get_last_payment u L = Some pid \<and> pid \<noteq> [] \<and>
    yk_get_payment (yookassa E) pid = Inr (JObj items) \<and>
    map_of items ''metadata'' = Some (JObj meta) \<and>
    map_of meta ''tg_user_id'' = Some v \<and>
    py_str v \<noteq> Some [] \<and> py_str v \<noteq> Some (str_int u)"
  then have "cb_access E u L =
    \<lparr>ledger_after = upsert_user (clock E 0) u L, answer = Inr OwnershipMismatch,
     calls = [GetPayment pid]\<rparr>"
    using cb_access_refused [of u L pid E items meta v] by simp
  then show "answer (cb_access E u L) = Inr OwnershipMismatch"
    and "calls (cb_access E u L) = [GetPayment pid]"
    by simp_all
next
  assume "answer (cb_access E u L) = Inr OwnershipMismatch"
  then show "CreateInvite \<notin> set (calls (cb_access E u L))"
    by (rule mismatch_makes_no_invite)
next
  assume h: "get_last_payment u L = Some pid \<and> pid \<noteq> [] \<and>
    yk_get_payment (yookassa E) pid = Inr (JObj items) \<and>
    (map_of items ''metadata'' = None
     \<or> (map_of items ''metadata'' = Some m \<and> \<not> py_truthy m)
     \<or> (map_of items ''metadata'' = Some (JObj ms) \<and>
         (map_of ms ''tg_user_id'' = None
          \<or> (map_of ms ''tg_user_id'' = Some t \<and> py_str t = Some []))))"
  then have "map_of items ''metadata'' = None
     \<or> (map_of items ''metadata'' = Some m \<and> \<not> py_truthy m)
     \<or> (map_of items ''metadata'' = Some (JObj ms) \<and>
         (map_of ms ''tg_user_id'' = None
          \<or> (map_of ms ''tg_user_id'' = Some t \<and>
              (py_str t = Some [] \<or> py_str t = Some (str_int u)))))"
    by argo
  with h show "answer (cb_access E u L) =
        Inr (if map_of items ''status'' = Some (JStr ''succeeded'')
             then (case create_chat_invite_link E of
                     Inl e \<Rightarrow> GrantFailed e | Inr link \<Rightarrow> Granted link)
             else NotConfirmed (map_of items ''status''))"
    using cb_access_accepted [of u L pid E items m ms t] by simp
qed

lemma yk_get_payment_object:
  "yk_get_payment (yookassa (example_env (answering 200 [] (Some (JObj items))) invite)) pid =
     Inr (JObj items)"
  by (simp add: yk_get_payment_answering)

theorem cb_access_ownership_witness:
  "answer (cb_access (example_env (answering 200 []
          (Some (JObj [(''status'', JStr ''succeeded''),
                       (''metadata'', JObj [(''tg_user_id'', JStr ''43'')])])))
        (Inr ''link'')) 42 (ledger_with 42 True ''tx-1'')) = Inr OwnershipMismatch
   \<and> calls (cb_access (example_env (answering 200 []
          (Some (JObj [(''status'', JStr ''succeeded''),
                       (''metadata'', JObj [(''tg_user_id'', JStr ''43'')])])))
        (Inr ''link'')) 42 (ledger_with 42 True ''tx-1'')) = [GetPayment ''tx-1'']
   \<and> answer (cb_access (example_env (answering 200 []
          (Some (JObj [(''status'', JStr ''succeeded''),
                       (''metadata'', JObj [(''tg_user_id'', JStr [])])])))
        (Inr ''link'')) 42 (ledger_with 42 True ''tx-1'')) = Inr (Granted ''link'')
   \<and> answer (cb_access (example_env (answering 200 []
          (Some (JObj [(''status'', JStr ''succeeded'')])))
        (Inr ''link'')) 42 (ledger_with 42 True ''tx-1'')) = Inr (Granted ''link'')
   \<and> answer (cb_access (example_env (answering 200 []
          (Some (JObj [(''status'', JStr ''succeeded''), (''metadata'', JNull)])))
        (Inr ''link'')) 42 (ledger_with 42 True ''tx-1'')) = Inr (Granted ''link'')
   \<and> answer (cb_access (example_env (answering 200 []
          (Some (JObj [(''status'', JStr ''pending''),
                       (''metadata'', JObj [(''order'', JStr ''7'')])])))
        (Inr ''link'')) 42 (ledger_with 42 True ''tx-1'')) =
       Inr (NotConfirmed (Some (JStr ''pending'')))"
proof -
  let ?L = "ledger_with 42 True ''tx-1''"
  have ref: "get_last_payment 42 ?L = Some ''tx-1''"
    by (rule get_last_payment_ledger_with)
  have other: "''43'' \<noteq> str_int 42"
    by (simp add: str_int_42)
  let ?refused = "[(''status'', JStr ''succeeded''),
      (''metadata'', JObj [(''tg_user_id'', JStr ''43'')])]"
  have "answer (cb_access (example_env (answering 200 [] (Some (JObj ?refused))) (Inr ''link''))
          42 ?L) = Inr OwnershipMismatch
      \<and> calls (cb_access (example_env (answering 200 [] (Some (JObj ?refused))) (Inr ''link''))
          42 ?L) = [GetPayment ''tx-1'']"
    by (rule cb_access_ownership [where items = ?refused
          and meta = "[(''tg_user_id'', JStr ''43'')]" and v = "JStr ''43''" and pid = "''tx-1''",
          THEN conjunct1, THEN mp])
      (simp add: ref other yk_get_payment_object)
  moreover
  let ?empty = "[(''status'', JStr ''succeeded''), (''metadata'', JObj [(''tg_user_id'', JStr [])])]"
  have "answer (cb_access (example_env (answering 200 [] (Some (JObj ?empty))) (Inr ''link''))
          42 ?L) =
        Inr (if map_of ?empty ''status'' = Some (JStr ''succeeded'')
             then (case create_chat_invite_link
                     (example_env (answering 200 [] (Some (JObj ?empty))) (Inr ''link'')) of
                     Inl e \<Rightarrow> GrantFailed e | Inr link \<Rightarrow> Granted link)
             else NotConfirmed (map_of ?empty ''status''))"
    by (rule cb_access_ownership [where items = ?empty and ms = "[(''tg_user_id'', JStr [])]"
          and t = "JStr []" and pid = "''tx-1''", THEN conjunct2, THEN conjunct2, THEN mp])
      (simp add: ref yk_get_payment_object)
  moreover
  let ?bare = "[(''status'', JStr ''succeeded'')]"
  have "answer (cb_access (example_env (answering 200 [] (Some (JObj ?bare))) (Inr ''link''))
          42 ?L) =
        Inr (if map_of ?bare ''status'' = Some (JStr ''succeeded'')
             then (case create_chat_invite_link
                     (example_env (answering 200 [] (Some (JObj ?bare))) (Inr ''link'')) of
                     Inl e \<Rightarrow> GrantFailed e | Inr link \<Rightarrow> Granted link)
             else NotConfirmed (map_of ?bare ''status''))"
    by (rule cb_access_ownership [where items = ?bare and pid = "''tx-1''",
          THEN conjunct2, THEN conjunct2, THEN mp])
      (simp add: ref yk_get_payment_object)
  moreover
  let ?null = "[(''status'', JStr ''succeeded''), (''metadata'', JNull)]"
  have "answer (cb_access (example_env (answering 200 [] (Some (JObj ?null))) (Inr ''link''))
          42 ?L) =
        Inr (if map_of ?null ''status'' = Some (JStr ''succeeded'')
             then (case create_chat_invite_link
                     (example_env (answering 200 [] (Some (JObj ?null))) (Inr ''link'')) of
                     Inl e \<Rightarrow> GrantFailed e | Inr link \<Rightarrow> Granted link)
             else NotConfirmed (map_of ?null ''status''))"
    by (rule cb_access_ownership [where items = ?null and m = JNull and pid = "''tx-1''",
          THEN conjunct2, THEN conjunct2, THEN mp])
      (simp add: ref yk_get_payment_object)
  moreover
  let ?nokey = "[(''status'', JStr ''pending''), (''metadata'', JObj [(''order'', JStr ''7'')])]"
  have "answer (cb_access (example_env (answering 200 [] (Some (JObj ?nokey))) (Inr ''link''))
          42 ?L) =
        Inr (if map_of ?nokey ''status'' = Some (JStr ''succeeded'')
             then (case create_chat_invite_link
                     (example_env (answering 200 [] (Some (JObj ?nokey))) (Inr ''link'')) of
                     Inl e \<Rightarrow> GrantFailed e | Inr link \<Rightarrow> Granted link)
             else NotConfirmed (map_of ?nokey ''status''))"
    by (rule cb_access_ownership [where items = ?nokey and ms = "[(''order'', JStr ''7'')]"
          and pid = "''tx-1''", THEN conjunct2, THEN conjunct2, THEN mp])
      (simp add: ref yk_get_payment_object)
  ultimately show ?thesis
    by (simp add: invite_example_env)
qed

section \<open>Repeated grants\<close>

text \<open>
  C4. Let the user's stored transaction be succeeded at the gateway, with owner
  metadata that is empty (no metadata, \<^verbatim>\<open>null\<close> or \<^verbatim>\<open>{}\<close>, metadata without the key, or an
  empty \<open>tg_user_id\<close>) or the user's id. Then any number of access calls in a row each
  answer by the invite call alone: Granted with the link when it returns one,
  GrantFailed with the reason when it raises. None of them changes the payments table,
  so the payment reference is still there after each, and a call that follows a
  GrantFailed is granted as soon as the invite call succeeds. The only call each makes
  to the gateway is the fetch.
\<close>

theorem access_is_repeatable:
  assumes "get_last_payment u L = Some pid" and "pid \<noteq> []"
    and "\<forall>E \<in> set Es. yk_get_payment (yookassa E) pid = Inr (JObj items)"
    and "map_of items ''status'' = Some (JStr ''succeeded'')"
    and "map_of items ''metadata'' = None
     \<or> (map_of items ''metadata'' = Some m \<and> \<not> py_truthy m)
     \<or> (map_of items ''metadata'' = Some (JObj meta) \<and>
         (map_of meta ''tg_user_id'' = None
          \<or> (map_of meta ''tg_user_id'' = Some v \<and>
              (py_str v = Some [] \<or> py_str v = Some (str_int u)))))"
  shows "map answer (access_repeatedly Es u L) =
           map (\<lambda>E. Inr (case create_chat_invite_link E of
                            Inl e \<Rightarrow> GrantFailed e | Inr link \<Rightarrow> Granted link)) Es
         \<and> (\<forall>r \<in> set (access_repeatedly Es u L).
               payments (ledger_after r) = payments L \<and>
               get_last_payment u (ledger_after r) = Some pid \<and>
               calls r = [GetPayment pid, CreateInvite])"
  using assms(1,3)
proof (induction Es arbitrary: L)
  case Nil
  then show ?case by simp
next
  case (Cons E Es)
  have fetched: "yk_get_payment (yookassa E) pid = Inr (JObj items)"
    using Cons.prems(2) by simp
  have after: "ledger_after (cb_access E u L) = upsert_user (clock E 0) u L"
    by (rule ledger_after_cb_access)
  note run = cb_access_accepted [OF Cons.prems(1) assms(2) fetched assms(5)]
  have here: "answer (cb_access E u L) =
      Inr (case create_chat_invite_link E of Inl e \<Rightarrow> GrantFailed e | Inr link \<Rightarrow> Granted link)"
    using assms(4) by (simp add: run)
  have called: "calls (cb_access E u L) = [GetPayment pid, CreateInvite]"
    using assms(4) by (simp add: run)
  have ref: "get_last_payment u (ledger_after (cb_access E u L)) = Some pid"
    using Cons.prems(1) by (simp add: after get_last_payment_upsert_user)
  have pay: "payments (ledger_after (cb_access E u L)) = payments L"
    by (simp add: after payments_upsert_user)
  have rest: "\<forall>E \<in> set Es. yk_get_payment (yookassa E) pid = Inr (JObj items)"
    using Cons.prems(2) by simp
  from Cons.IH [OF ref rest] here called ref pay show ?case
    by simp
qed

theorem access_is_repeatable_witness:
  "map answer (access_repeatedly
      [example_env (answering 200 []
          (Some (JObj [(''status'', JStr ''succeeded''),
                       (''metadata'', JObj [(''tg_user_id'', JStr ''42'')])])))
         (Inl (TelegramError ''no rights'')),
       example_env (answering 200 []
          (Some (JObj [(''status'', JStr ''succeeded''),
                       (''metadata'', JObj [(''tg_user_id'', JStr ''42'')])])))
         (Inr ''link-1''),
       example_env (answering 200 []
          (Some (JObj [(''status'', JStr ''succeeded''),
                       (''metadata'', JObj [(''tg_user_id'', JStr ''42'')])])))
         (Inr ''link-2'')]
      42 (ledger_with 42 True ''tx-1'')) =
     [Inr (GrantFailed (TelegramError ''no rights'')), Inr (Granted ''link-1''),
      Inr (Granted ''link-2'')]
   \<and> map answer (access_repeatedly
      [example_env (answering 200 [] (Some (JObj [(''status'', JStr ''succeeded'')])))
         (Inr ''link-1''),
       example_env (answering 200 [] (Some (JObj [(''status'', JStr ''succeeded'')])))
         (Inr ''link-2'')]
      42 (ledger_with 42 True ''tx-1'')) =
     [Inr (Granted ''link-1''), Inr (Granted ''link-2'')]
   \<and> map answer (access_repeatedly
      [example_env (answering 200 []
          (Some (JObj [(''status'', JStr ''succeeded''), (''metadata'', JObj [])])))
         (Inr ''link-1'')]
      42 (ledger_with 42 True ''tx-1'')) = [Inr (Granted ''link-1'')]"
proof -
  let ?L = "ledger_with 42 True ''tx-1''"
  have ref: "get_last_payment 42 ?L = Some ''tx-1''"
    by (rule get_last_payment_ledger_with)
  let ?owned = "[(''status'', JStr ''succeeded''), (''metadata'', JObj [(''tg_user_id'', JStr ''42'')])]"
  let ?Es1 = "[example_env (answering 200 [] (Some (JObj ?owned))) (Inl (TelegramError ''no rights'')),
      example_env (answering 200 [] (Some (JObj ?owned))) (Inr ''link-1''),
      example_env (answering 200 [] (Some (JObj ?owned))) (Inr ''link-2'')]"
  have "map answer (access_repeatedly ?Es1 42 ?L) =
           map (\<lambda>E. Inr (case create_chat_invite_link E of
                            Inl e \<Rightarrow> GrantFailed e | Inr link \<Rightarrow> Granted link)) ?Es1
         \<and> (\<forall>r \<in> set (access_repeatedly ?Es1 42 ?L).
               payments (ledger_after r) = payments ?L \<and>
               get_last_payment 42 (ledger_after r) = Some ''tx-1'' \<and>
               calls r = [GetPayment ''tx-1'', CreateInvite])"
    by (rule access_is_repeatable [where items = ?owned and meta = "[(''tg_user_id'', JStr ''42'')]"
          and v = "JStr ''42''"])
      (simp_all add: ref yk_get_payment_object str_int_42)
  then have first: "map answer (access_repeatedly ?Es1 42 ?L) =
     [Inr (GrantFailed (TelegramError ''no rights'')), Inr (Granted ''link-1''),
      Inr (Granted ''link-2'')]"
    by (simp add: invite_example_env)
  let ?bare = "[(''status'', JStr ''succeeded'')]"
  let ?Es2 = "[example_env (answering 200 [] (Some (JObj ?bare))) (Inr ''link-1''),
      example_env (answering 200 [] (Some (JObj ?bare))) (Inr ''link-2'')]"
  have "map answer (access_repeatedly ?Es2 42 ?L) =
           map (\<lambda>E. Inr (case create_chat_invite_link E of
                            Inl e \<Rightarrow> GrantFailed e | Inr link \<Rightarrow> Granted link)) ?Es2
         \<and> (\<forall>r \<in> set (access_repeatedly ?Es2 42 ?L).
               payments (ledger_after r) = payments ?L \<and>
               get_last_payment 42 (ledger_after r) = Some ''tx-1'' \<and>
               calls r = [GetPayment ''tx-1'', CreateInvite])"
    by (rule access_is_repeatable [where items = ?bare])
      (simp_all add: ref yk_get_payment_object)
  then have second: "map answer (access_repeatedly ?Es2 42 ?L) =
     [Inr (Granted ''link-1''), Inr (Granted ''link-2'')]"
    by (simp add: invite_example_env)
  let ?hollow = "[(''status'', JStr ''succeeded''), (''metadata'', JObj [])]"
  let ?Es3 = "[example_env (answering 200 [] (Some (JObj ?hollow))) (Inr ''link-1'')]"
  have "map answer (access_repeatedly ?Es3 42 ?L) =
           map (\<lambda>E. Inr (case create_chat_invite_link E of
                            Inl e \<Rightarrow> GrantFailed e | Inr link \<Rightarrow> Granted link)) ?Es3
         \<and> (\<forall>r \<in> set (access_repeatedly ?Es3 42 ?L).
               payments (ledger_after r) = payments ?L \<and>
               get_last_payment 42 (ledger_after r) = Some ''tx-1'' \<and>
               calls r = [GetPayment ''tx-1'', CreateInvite])"
    by (rule access_is_repeatable [where items = ?hollow and m = "JObj []"])
      (simp_all add: ref yk_get_payment_object)
  then have third: "map answer (access_repeatedly ?Es3 42 ?L) = [Inr (Granted ''link-1'')]"
    by (simp add: invite_example_env)
  from first second third show ?thesis
    by simp
qed

section \<open>The broadcast loop\<close>

lemma deliver_delivered:
  "send uid (transport r) = (Delivered, w1) \<Longrightarrow>
   deliver send r uid =
     r\<lparr>ok := ok r + 1, transport := w1, events := events r @ [Attempt uid, Sleep 0.05]\<rparr>"
  by (simp add: deliver_def)

lemma deliver_forbidden:
  "send uid (transport r) = (TelegramForbiddenError, w1) \<Longrightarrow>
   deliver send r uid =
     r\<lparr>blocked := blocked r + 1, run_ledger := remove_user uid (run_ledger r),
       transport := w1, events := events r @ [Attempt uid]\<rparr>"
  by (simp add: deliver_def)

lemma deliver_other:
  "send uid (transport r) = (OtherException, w1) \<Longrightarrow>
   deliver send r uid =
     r\<lparr>failed := failed r + 1, transport := w1, events := events r @ [Attempt uid]\<rparr>"
  by (simp add: deliver_def)

lemma deliver_retry:
  "send uid (transport r) = (TelegramRetryAfter t, w1) \<Longrightarrow> send uid w1 = (res, w2) \<Longrightarrow>
   deliver send r uid =
     r\<lparr>ok := (if res = Delivered then ok r + 1 else ok r),
       failed := (if res = Delivered then failed r else failed r + 1),
       transport := w2,
       events := events r @ [Attempt uid, Sleep (real_of_int t + 0.5), Attempt uid]\<rparr>"
  by (cases res) (simp_all add: deliver_def)

text \<open>One recipient, summed up: one counter goes up by one, and the Ledger changes only
  by the removal that follows a refusal of the first attempt.\<close>

lemma deliver_summary:
  "\<exists>d b f w evs.
     deliver send r uid =
       r\<lparr>ok := ok r + d, blocked := blocked r + b, failed := failed r + f,
         run_ledger := (if fst (send uid (transport r)) = TelegramForbiddenError
                        then remove_user uid (run_ledger r) else run_ledger r),
         transport := w, events := events r @ evs\<rparr>
     \<and> d + b + f = 1
     \<and> (b = 1 \<longleftrightarrow> fst (send uid (transport r)) = TelegramForbiddenError)
     \<and> set (attempted evs) \<subseteq> {uid}"
proof (cases "send uid (transport r)")
  case (Pair res w1)
  show ?thesis
  proof (cases res)
    case Delivered
    with Pair have "deliver send r uid =
      r\<lparr>ok := ok r + 1, blocked := blocked r + 0, failed := failed r + 0,
         run_ledger := (if fst (send uid (transport r)) = TelegramForbiddenError
                        then remove_user uid (run_ledger r) else run_ledger r),
         transport := w1, events := events r @ [Attempt uid, Sleep 0.05]\<rparr>"
      by (simp add: deliver_delivered)
    moreover have "fst (send uid (transport r)) \<noteq> TelegramForbiddenError"
      using Pair Delivered by simp
    ultimately show ?thesis
      by (intro exI [of _ 1] exI [of _ 0] exI [of _ w1] exI [of _ "[Attempt uid, Sleep 0.05]"]) simp
  next
    case TelegramForbiddenError
    with Pair have "deliver send r uid =
      r\<lparr>ok := ok r + 0, blocked := blocked r + 1, failed := failed r + 0,
         run_ledger := (if fst (send uid (transport r)) = TelegramForbiddenError
                        then remove_user uid (run_ledger r) else run_ledger r),
         transport := w1, events := events r @ [Attempt uid]\<rparr>"
      by (simp add: deliver_forbidden)
    moreover have "fst (send uid (transport r)) = TelegramForbiddenError"
      using Pair TelegramForbiddenError by simp
    ultimately show ?thesis
      by (intro exI [of _ 0] exI [of _ 1] exI [of _ w1] exI [of _ "[Attempt uid]"]) simp
  next
    case (TelegramRetryAfter t)
    obtain res2 w2 where second: "send uid w1 = (res2, w2)"
      by (cases "send uid w1")
    let ?evs = "[Attempt uid, Sleep (real_of_int t + 0.5), Attempt uid]"
    from Pair TelegramRetryAfter second have "deliver send r uid =
      r\<lparr>ok := ok r + (if res2 = Delivered then 1 else 0), blocked := blocked r + 0,
         failed := failed r + (if res2 = Delivered then 0 else 1),
         run_ledger := (if fst (send uid (transport r)) = TelegramForbiddenError
                        then remove_user uid (run_ledger r) else run_ledger r),
         transport := w2, events := events r @ ?evs\<rparr>"
      by (simp add: deliver_retry)
    moreover have "fst (send uid (transport r)) \<noteq> TelegramForbiddenError"
      using Pair TelegramRetryAfter by simp
    ultimately show ?thesis
      by (intro exI [of _ "if res2 = Delivered then 1 else 0"] exI [of _ 0]
          exI [of _ "if res2 = Delivered then 0 else 1"] exI [of _ w2] exI [of _ ?evs]) simp
  next
    case OtherException
    with Pair have "deliver send r uid =
      r\<lparr>ok := ok r + 0, blocked := blocked r + 0, failed := failed r + 1,
         run_ledger := (if fst (send uid (transport r)) = TelegramForbiddenError
                        then remove_user uid (run_ledger r) else run_ledger r),
         transport := w1, events := events r @ [Attempt uid]\<rparr>"
      by (simp add: deliver_other)
    moreover have "fst (send uid (transport r)) \<noteq> TelegramForbiddenError"
      using Pair OtherException by simp
    ultimately show ?thesis
      by (intro exI [of _ 0] exI [of _ 0] exI [of _ 1] exI [of _ w1] exI [of _ "[Attempt uid]"]) simp
  qed
qed

lemma deliver_counts:
  "ok (deliver send r uid) + blocked (deliver send r uid) + failed (deliver send r uid) =
   ok r + blocked r + failed r + 1"
  using deliver_summary [of send r uid] by auto

lemma run_ledger_deliver:
  "run_ledger (deliver send r uid) =
     (if fst (send uid (transport r)) = TelegramForbiddenError
      then remove_user uid (run_ledger r) else run_ledger r)"
  using deliver_summary [of send r uid] by auto

lemma blocked_deliver:
  "blocked (deliver send r uid) =
     (if fst (send uid (transport r)) = TelegramForbiddenError then blocked r + 1 else blocked r)"
proof -
  obtain d b f w evs where
    eq: "deliver send r uid =
       r\<lparr>ok := ok r + d, blocked := blocked r + b, failed := failed r + f,
         run_ledger := (if fst (send uid (transport r)) = TelegramForbiddenError
                        then remove_user uid (run_ledger r) else run_ledger r),
         transport := w, events := events r @ evs\<rparr>"
    and sum: "d + b + f = 1"
    and b: "b = 1 \<longleftrightarrow> fst (send uid (transport r)) = TelegramForbiddenError"
    using deliver_summary [of send r uid] by blast
  from sum have "b = 0 \<or> b = 1" by arith
  with b show ?thesis by (auto simp add: eq)
qed

lemma broadcast_loop_counts:
  "ok (broadcast_loop send uids r) + blocked (broadcast_loop send uids r) +
   failed (broadcast_loop send uids r) = ok r + blocked r + failed r + length uids"
  by (induction uids arbitrary: r) (simp_all add: deliver_counts)

lemma broadcast_loop_append:
  "broadcast_loop send (xs @ ys) r = broadcast_loop send ys (broadcast_loop send xs r)"
  by (induction xs arbitrary: r) simp_all

lemma map_of_remove_user:
  "map_of (users (remove_user u L)) = (map_of (users L))(u := None)"
  "map_of (payments (remove_user u L)) = (map_of (payments L))(u := None)"
  by (simp_all add: remove_user_def map_of_delete_where)

lemma deliver_keeps_absent:
  "map_of (users (run_ledger r)) k = None \<Longrightarrow>
   map_of (users (run_ledger (deliver send r uid))) k = None"
  "map_of (payments (run_ledger r)) k = None \<Longrightarrow>
   map_of (payments (run_ledger (deliver send r uid))) k = None"
  by (simp_all add: run_ledger_deliver map_of_remove_user)

lemma broadcast_loop_keeps_absent:
  "map_of (users (run_ledger r)) k = None \<Longrightarrow>
   map_of (users (run_ledger (broadcast_loop send uids r))) k = None"
  "map_of (payments (run_ledger r)) k = None \<Longrightarrow>
   map_of (payments (run_ledger (broadcast_loop send uids r))) k = None"
  by (induction uids arbitrary: r) (simp_all add: deliver_keeps_absent)

lemma counters_start_run:
  "ok (start_run L w) = 0" "blocked (start_run L w) = 0" "failed (start_run L w) = 0"
  by (simp_all add: start_run_def)

lemma cmd_broadcast_report:
  assumes "fst (cmd_broadcast A b from_user arg L w) = Report n a bl f"
  shows "n = length (get_subscribers L) \<and> a + bl + f = n"
proof -
  from assms obtain msg where arg: "arg = Some msg"
    by (cases arg) (simp_all add: cmd_broadcast_def split: if_splits)
  let ?R = "broadcast_loop (send_message b msg) (get_subscribers L) (start_run L w)"
  from assms arg have "Report n a bl f = Report (length (get_subscribers L)) (ok ?R) (blocked ?R) (failed ?R)"
    by (simp add: cmd_broadcast_def report_def Let_def split: if_splits)
  then show ?thesis
    using broadcast_loop_counts [of "send_message b msg" "get_subscribers L" "start_run L w"]
    by (simp add: counters_start_run)
qed

lemma cmd_broadcast_here_report:
  assumes "fst (cmd_broadcast_here A b from_user reply_to L w) = Report n a bl f"
  shows "n = length (get_subscribers L) \<and> a + bl + f = n"
proof -
  from assms obtain src where arg: "reply_to = Some src"
    by (cases reply_to) (simp_all add: cmd_broadcast_here_def split: if_splits)
  let ?R = "broadcast_loop (copy_to b src) (get_subscribers L) (start_run L w)"
  from assms arg have "Report n a bl f = Report (length (get_subscribers L)) (ok ?R) (blocked ?R) (failed ?R)"
    by (simp add: cmd_broadcast_here_def report_def Let_def split: if_splits)
  then show ?thesis
    using broadcast_loop_counts [of "copy_to b src" "get_subscribers L" "start_run L w"]
    by (simp add: counters_start_run)
qed

lemma blocked_broadcast_loop:
  "blocked (broadcast_loop send uids r) = blocked r + length (refused send uids r)"
  by (induction uids arbitrary: r) (simp_all add: blocked_deliver)

lemma refused_absent:
  "uid \<in> set (refused send uids r) \<Longrightarrow>
   map_of (users (run_ledger (broadcast_loop send uids r))) uid = None \<and>
   map_of (payments (run_ledger (broadcast_loop send uids r))) uid = None"
proof (induction uids arbitrary: r)
  case Nil
  then show ?case by simp
next
  case (Cons x uids)
  show ?case
  proof (cases "uid = x \<and> fst (send x (transport r)) = TelegramForbiddenError")
    case True
    then have "map_of (users (run_ledger (deliver send r x))) uid = None"
      and "map_of (payments (run_ledger (deliver send r x))) uid = None"
      by (simp_all add: run_ledger_deliver map_of_remove_user)
    then show ?thesis
      by (simp add: broadcast_loop_keeps_absent)
  next
    case False
    with Cons.prems have "uid \<in> set (refused send uids (deliver send r x))"
      by (auto split: if_splits)
    from Cons.IH [OF this] show ?thesis by simp
  qed
qed

lemma cmd_broadcast_run:
  "from_user = A \<Longrightarrow> get_subscribers L \<noteq> [] \<Longrightarrow>
   cmd_broadcast A b from_user (Some msg) L w =
     report (length (get_subscribers L))
       (broadcast_loop (send_message b msg) (get_subscribers L) (start_run L w))"
  by (simp add: cmd_broadcast_def is_admin_def Let_def)

lemma cmd_broadcast_here_run:
  "from_user = A \<Longrightarrow> get_subscribers L \<noteq> [] \<Longrightarrow>
   cmd_broadcast_here A b from_user (Some src) L w =
     report (length (get_subscribers L))
       (broadcast_loop (copy_to b src) (get_subscribers L) (start_run L w))"
  by (simp add: cmd_broadcast_here_def is_admin_def Let_def)

text \<open>What a run over the snapshot \<open>uids\<close> of the Ledger \<open>L\<close> reports and leaves.\<close>

lemma report_of_run:
  assumes "c = report (length uids) (broadcast_loop send uids (start_run L w))"
  shows "fst c = Report (length uids) (ok (snd c)) (blocked (snd c)) (failed (snd c))
    \<and> ok (snd c) + blocked (snd c) + failed (snd c) = length uids
    \<and> blocked (snd c) = length (refused send uids (start_run L w))
    \<and> (\<forall>uid \<in> set (refused send uids (start_run L w)).
          map_of (users (run_ledger (snd c))) uid = None \<and>
          map_of (payments (run_ledger (snd c))) uid = None)"
  using broadcast_loop_counts [of send uids "start_run L w"]
    blocked_broadcast_loop [of send uids "start_run L w"]
    refused_absent [of _ send uids "start_run L w"]
  by (simp add: assms report_def counters_start_run)

text \<open>
  C6. After the loop has run over a list of recipients the three counters have grown
  by the length of the list together, each recipient adding one to exactly one of
  them and nothing to the others, so a broadcast reports
  delivered + blocked + failed = N, the number of subscribers in the snapshot. A
  recipient whose first attempt is refused (TelegramForbiddenError) adds exactly one to
  \<open>blocked\<close> and nothing to the other counters, is removed from the Ledger at once, and
  has neither a user row nor a payment row when the run ends. For the two commands:
  when the admin starts a broadcast and there are subscribers, the answer is the report
  of the three counters of the run, they add up to the number of subscribers, the
  blocked count is the number of recipients refused on their first attempt, and the
  Ledger the command leaves has neither row of any of them.
\<close>

theorem broadcast_counts_and_blocked:
  "ok (broadcast_loop send uids r) + blocked (broadcast_loop send uids r) +
     failed (broadcast_loop send uids r) = ok r + blocked r + failed r + length uids
   \<and> (\<exists>d1 d2 d3. ok (deliver send r uid) = ok r + d1 \<and>
        blocked (deliver send r uid) = blocked r + d2 \<and>
        failed (deliver send r uid) = failed r + d3 \<and> d1 + d2 + d3 = 1)
   \<and> (fst (cmd_broadcast A b from_user arg L w) = Report n a bl f \<longrightarrow>
        n = length (get_subscribers L) \<and> a + bl + f = n)
   \<and> (fst (cmd_broadcast_here A b from_user reply_to L w) = Report n a bl f \<longrightarrow>
        n = length (get_subscribers L) \<and> a + bl + f = n)
   \<and> (uids = before @ uid # later \<and>
       fst (send uid (transport (broadcast_loop send before r))) = TelegramForbiddenError \<longrightarrow>
        blocked (deliver send (broadcast_loop send before r) uid) =
          blocked (broadcast_loop send before r) + 1 \<and>
        ok (deliver send (broadcast_loop send before r) uid) = ok (broadcast_loop send before r) \<and>
        failed (deliver send (broadcast_loop send before r) uid) =
          failed (broadcast_loop send before r) \<and>
        run_ledger (deliver send (broadcast_loop send before r) uid) =
          remove_user uid (run_ledger (broadcast_loop send before r)) \<and>
        map_of (users (run_ledger (broadcast_loop send uids r))) uid = None \<and>
        map_of (payments (run_ledger (broadcast_loop send uids r))) uid = None)
   \<and> (from_user = A \<and> get_subscribers L \<noteq> [] \<longrightarrow>
        fst (cmd_broadcast A b from_user (Some msg) L w) =
          Report (length (get_subscribers L))
            (ok (snd (cmd_broadcast A b from_user (Some msg) L w)))
            (blocked (snd (cmd_broadcast A b from_user (Some msg) L w)))
            (failed (snd (cmd_broadcast A b from_user (Some msg) L w))) \<and>
        ok (snd (cmd_broadcast A b from_user (Some msg) L w)) +
          blocked (snd (cmd_broadcast A b from_user (Some msg) L w)) +
          failed (snd (cmd_broadcast A b from_user (Some msg) L w)) =
          length (get_subscribers L) \<and>
        blocked (snd (cmd_broadcast A b from_user (Some msg) L w)) =
          length (refused (send_message b msg) (get_subscribers L) (start_run L w)) \<and>
        (\<forall>x \<in> set (refused (send_message b msg) (get_subscribers L) (start_run L w)).
           map_of (users (run_ledger (snd (cmd_broadcast A b from_user (Some msg) L w)))) x = None \<and>
           map_of (payments (run_ledger (snd (cmd_broadcast A b from_user (Some msg) L w)))) x =
             None))
   \<and> (from_user = A \<and> get_subscribers L \<noteq> [] \<longrightarrow>
        fst (cmd_broadcast_here A b from_user (Some src) L w) =
          Report (length (get_subscribers L))
            (ok (snd (cmd_broadcast_here A b from_user (Some src) L w)))
            (blocked (snd (cmd_broadcast_here A b from_user (Some src) L w)))
            (failed (snd (cmd_broadcast_here A b from_user (Some src) L w))) \<and>
        ok (snd (cmd_broadcast_here A b from_user (Some src) L w)) +
          blocked (snd (cmd_broadcast_here A b from_user (Some src) L w)) +
          failed (snd (cmd_broadcast_here A b from_user (Some src) L w)) =
          length (get_subscribers L) \<and>
        blocked (snd (cmd_broadcast_here A b from_user (Some src) L w)) =
          length (refused (copy_to b src) (get_subscribers L) (start_run L w)) \<and>
        (\<forall>x \<in> set (refused (copy_to b src) (get_subscribers L) (start_run L w)).
           map_of (users (run_ledger (snd (cmd_broadcast_here A b from_user (Some src) L w)))) x =
             None \<and>
           map_of (payments (run_ledger (snd (cmd_broadcast_here A b from_user (Some src) L w)))) x =
             None))"
proof -
  have loop: "ok (broadcast_loop send uids r) + blocked (broadcast_loop send uids r) +
     failed (broadcast_loop send uids r) = ok r + blocked r + failed r + length uids"
    by (rule broadcast_loop_counts)
  have one: "\<exists>d1 d2 d3. ok (deliver send r uid) = ok r + d1 \<and>
        blocked (deliver send r uid) = blocked r + d2 \<and>
        failed (deliver send r uid) = failed r + d3 \<and> d1 + d2 + d3 = 1"
  proof -
    obtain d1 d2 d3 w' evs where
      "deliver send r uid =
         r\<lparr>ok := ok r + d1, blocked := blocked r + d2, failed := failed r + d3,
           run_ledger := (if fst (send uid (transport r)) = TelegramForbiddenError
                          then remove_user uid (run_ledger r) else run_ledger r),
           transport := w', events := events r @ evs\<rparr>"
      and "d1 + d2 + d3 = 1"
      using deliver_summary [of send r uid] by blast
    then have "ok (deliver send r uid) = ok r + d1 \<and>
        blocked (deliver send r uid) = blocked r + d2 \<and>
        failed (deliver send r uid) = failed r + d3 \<and> d1 + d2 + d3 = 1"
      by simp
    then show ?thesis by blast
  qed
  have text_report: "fst (cmd_broadcast A b from_user arg L w) = Report n a bl f \<longrightarrow>
        n = length (get_subscribers L) \<and> a + bl + f = n"
    using cmd_broadcast_report [of A b from_user arg L w n a bl f] by blast
  have copy_report: "fst (cmd_broadcast_here A b from_user reply_to L w) = Report n a bl f \<longrightarrow>
        n = length (get_subscribers L) \<and> a + bl + f = n"
    using cmd_broadcast_here_report [of A b from_user reply_to L w n a bl f] by blast
  have removed: "uids = before @ uid # later \<and>
       fst (send uid (transport (broadcast_loop send before r))) = TelegramForbiddenError \<longrightarrow>
        blocked (deliver send (broadcast_loop send before r) uid) =
          blocked (broadcast_loop send before r) + 1 \<and>
        ok (deliver send (broadcast_loop send before r) uid) = ok (broadcast_loop send before r) \<and>
        failed (deliver send (broadcast_loop send before r) uid) =
          failed (broadcast_loop send before r) \<and>
        run_ledger (deliver send (broadcast_loop send before r) uid) =
          remove_user uid (run_ledger (broadcast_loop send before r)) \<and>
        map_of (users (run_ledger (broadcast_loop send uids r))) uid = None \<and>
        map_of (payments (run_ledger (broadcast_loop send uids r))) uid = None"
  proof (intro impI)
    assume h: "uids = before @ uid # later \<and>
       fst (send uid (transport (broadcast_loop send before r))) = TelegramForbiddenError"
    let ?r1 = "broadcast_loop send before r"
    obtain w1 where first: "send uid (transport ?r1) = (TelegramForbiddenError, w1)"
      using h by (cases "send uid (transport ?r1)") simp
    note d = deliver_forbidden [of send uid ?r1 w1, OF first]
    from h have whole: "broadcast_loop send uids r = broadcast_loop send later (deliver send ?r1 uid)"
      by (simp add: broadcast_loop_append)
    have "map_of (users (run_ledger (deliver send ?r1 uid))) uid = None"
      and "map_of (payments (run_ledger (deliver send ?r1 uid))) uid = None"
      by (simp_all add: d map_of_remove_user)
    then have "map_of (users (run_ledger (broadcast_loop send uids r))) uid = None"
      and "map_of (payments (run_ledger (broadcast_loop send uids r))) uid = None"
      by (simp_all add: whole broadcast_loop_keeps_absent)
    then show "blocked (deliver send ?r1 uid) = blocked ?r1 + 1 \<and>
        ok (deliver send ?r1 uid) = ok ?r1 \<and>
        failed (deliver send ?r1 uid) = failed ?r1 \<and>
        run_ledger (deliver send ?r1 uid) = remove_user uid (run_ledger ?r1) \<and>
        map_of (users (run_ledger (broadcast_loop send uids r))) uid = None \<and>
        map_of (payments (run_ledger (broadcast_loop send uids r))) uid = None"
      by (simp add: d)
  qed
  have text_run: "from_user = A \<and> get_subscribers L \<noteq> [] \<longrightarrow>
        fst (cmd_broadcast A b from_user (Some msg) L w) =
          Report (length (get_subscribers L))
            (ok (snd (cmd_broadcast A b from_user (Some msg) L w)))
            (blocked (snd (cmd_broadcast A b from_user (Some msg) L w)))
            (failed (snd (cmd_broadcast A b from_user (Some msg) L w))) \<and>
        ok (snd (cmd_broadcast A b from_user (Some msg) L w)) +
          blocked (snd (cmd_broadcast A b from_user (Some msg) L w)) +
          failed (snd (cmd_broadcast A b from_user (Some msg) L w)) =
          length (get_subscribers L) \<and>
        blocked (snd (cmd_broadcast A b from_user (Some msg) L w)) =
          length (refused (send_message b msg) (get_subscribers L) (start_run L w)) \<and>
        (\<forall>x \<in> set (refused (send_message b msg) (get_subscribers L) (start_run L w)).
           map_of (users (run_ledger (snd (cmd_broadcast A b from_user (Some msg) L w)))) x = None \<and>
           map_of (payments (run_ledger (snd (cmd_broadcast A b from_user (Some msg) L w)))) x =
             None)"
  proof (intro impI)
    assume "from_user = A \<and> get_subscribers L \<noteq> []"
    then have "cmd_broadcast A b from_user (Some msg) L w =
      report (length (get_subscribers L))
        (broadcast_loop (send_message b msg) (get_subscribers L) (start_run L w))"
      by (simp add: cmd_broadcast_run)
    from report_of_run [OF this] show "fst (cmd_broadcast A b from_user (Some msg) L w) =
          Report (length (get_subscribers L))
            (ok (snd (cmd_broadcast A b from_user (Some msg) L w)))
            (blocked (snd (cmd_broadcast A b from_user (Some msg) L w)))
            (failed (snd (cmd_broadcast A b from_user (Some msg) L w))) \<and>
        ok (snd (cmd_broadcast A b from_user (Some msg) L w)) +
          blocked (snd (cmd_broadcast A b from_user (Some msg) L w)) +
          failed (snd (cmd_broadcast A b from_user (Some msg) L w)) =
          length (get_subscribers L) \<and>
        blocked (snd (cmd_broadcast A b from_user (Some msg) L w)) =
          length (refused (send_message b msg) (get_subscribers L) (start_run L w)) \<and>
        (\<forall>x \<in> set (refused (send_message b msg) (get_subscribers L) (start_run L w)).
           map_of (users (run_ledger (snd (cmd_broadcast A b from_user (Some msg) L w)))) x = None \<and>
           map_of (payments (run_ledger (snd (cmd_broadcast A b from_user (Some msg) L w)))) x =
             None)" .
  qed
  have copy_run: "from_user = A \<and> get_subscribers L \<noteq> [] \<longrightarrow>
        fst (cmd_broadcast_here A b from_user (Some src) L w) =
          Report (length (get_subscribers L))
            (ok (snd (cmd_broadcast_here A b from_user (Some src) L w)))
            (blocked (snd (cmd_broadcast_here A b from_user (Some src) L w)))
            (failed (snd (cmd_broadcast_here A b from_user (Some src) L w))) \<and>
        ok (snd (cmd_broadcast_here A b from_user (Some src) L w)) +
          blocked (snd (cmd_broadcast_here A b from_user (Some src) L w)) +
          failed (snd (cmd_broadcast_here A b from_user (Some src) L w)) =
          length (get_subscribers L) \<and>
        blocked (snd (cmd_broadcast_here A b from_user (Some src) L w)) =
          length (refused (copy_to b src) (get_subscribers L) (start_run L w)) \<and>
        (\<forall>x \<in> set (refused (copy_to b src) (get_subscribers L) (start_run L w)).
           map_of (users (run_ledger (snd (cmd_broadcast_here A b from_user (Some src) L w)))) x =
             None \<and>
           map_of (payments (run_ledger (snd (cmd_broadcast_here A b from_user (Some src) L w)))) x =
             None)"
  proof (intro impI)
    assume "from_user = A \<and> get_subscribers L \<noteq> []"
    then have "cmd_broadcast_here A b from_user (Some src) L w =
      report (length (get_subscribers L))
        (broadcast_loop (copy_to b src) (get_subscribers L) (start_run L w))"
      by (simp add: cmd_broadcast_here_run)
    from report_of_run [OF this] show "fst (cmd_broadcast_here A b from_user (Some src) L w) =
          Report (length (get_subscribers L))
            (ok (snd (cmd_broadcast_here A b from_user (Some src) L w)))
            (blocked (snd (cmd_broadcast_here A b from_user (Some src) L w)))
            (failed (snd (cmd_broadcast_here A b from_user (Some src) L w))) \<and>
        ok (snd (cmd_broadcast_here A b from_user (Some src) L w)) +
          blocked (snd (cmd_broadcast_here A b from_user (Some src) L w)) +
          failed (snd (cmd_broadcast_here A b from_user (Some src) L w)) =
          length (get_subscribers L) \<and>
        blocked (snd (cmd_broadcast_here A b from_user (Some src) L w)) =
          length (refused (copy_to b src) (get_subscribers L) (start_run L w)) \<and>
        (\<forall>x \<in> set (refused (copy_to b src) (get_subscribers L) (start_run L w)).
           map_of (users (run_ledger (snd (cmd_broadcast_here A b from_user (Some src) L w)))) x =
             None \<and>
           map_of (payments (run_ledger (snd (cmd_broadcast_here A b from_user (Some src) L w)))) x =
             None)" .
  qed
  from loop one text_report copy_report removed text_run copy_run show ?thesis
    by (intro conjI)
qed

theorem broadcast_counts_and_blocked_witness:
  "fst (cmd_broadcast 7 scripted_bot 7 (Some ''hi'') three_subscribers
        [TelegramRetryAfter 5, Delivered, TelegramForbiddenError, Delivered]) = Report 3 2 1 0
   \<and> length (get_subscribers three_subscribers) = 3
   \<and> refused scripted [1, 2, 4] (start_run three_subscribers
        [TelegramRetryAfter 5, Delivered, TelegramForbiddenError, Delivered]) = [2]
   \<and> map_of (users (run_ledger (snd (cmd_broadcast 7 scripted_bot 7 (Some ''hi'')
        three_subscribers
        [TelegramRetryAfter 5, Delivered, TelegramForbiddenError, Delivered])))) 2 = None
   \<and> map_of (payments (run_ledger (snd (cmd_broadcast 7 scripted_bot 7 (Some ''hi'')
        three_subscribers
        [TelegramRetryAfter 5, Delivered, TelegramForbiddenError, Delivered])))) 2 = None
   \<and> map_of (users (run_ledger (snd (cmd_broadcast_here 7 scripted_bot 7 (Some ())
        three_subscribers
        [TelegramRetryAfter 5, Delivered, TelegramForbiddenError, Delivered])))) 2 = None
   \<and> map_of (users three_subscribers) 2 =
        Some \<lparr>is_subscribed = True, created_at = 2, updated_at = 2\<rparr>"
proof -
  let ?script = "[TelegramRetryAfter 5, Delivered, TelegramForbiddenError, Delivered]"
  have subs: "get_subscribers three_subscribers = [1, 2, 4]"
    by (simp add: get_subscribers_def three_subscribers_def)
  have who: "refused scripted [1, 2, 4] (start_run three_subscribers ?script) = [2]"
    by (simp add: scripted_def deliver_def start_run_def)
  have before: "map_of (users three_subscribers) 2 =
        Some \<lparr>is_subscribed = True, created_at = 2, updated_at = 2\<rparr>"
    by (simp add: three_subscribers_def)
  have run: "fst (cmd_broadcast 7 scripted_bot 7 (Some ''hi'') three_subscribers ?script) =
      Report 3 2 1 0"
    by (simp add: cmd_broadcast_def is_admin_def get_subscribers_def three_subscribers_def
        scripted_bot_def scripted_def deliver_def start_run_def report_def)
  have ready: "(7::int) = 7 \<and> get_subscribers three_subscribers \<noteq> []"
    by (simp add: subs)
  note all = broadcast_counts_and_blocked [where A = 7 and b = scripted_bot and from_user = 7
      and L = three_subscribers and w = ?script and msg = "''hi''" and src = "()"]
  have by_text: "send_message scripted_bot ''hi'' = scripted"
    and by_copy: "copy_to scripted_bot () = scripted"
    by (simp_all add: scripted_bot_def)
  from all [THEN conjunct2, THEN conjunct2, THEN conjunct2, THEN conjunct2, THEN conjunct2,
      THEN conjunct1, THEN mp, OF ready, unfolded subs by_text who]
  have sent: "map_of (users (run_ledger (snd (cmd_broadcast 7 scripted_bot 7 (Some ''hi'')
        three_subscribers ?script)))) 2 = None
      \<and> map_of (payments (run_ledger (snd (cmd_broadcast 7 scripted_bot 7 (Some ''hi'')
        three_subscribers ?script)))) 2 = None"
    by simp
  from all [THEN conjunct2, THEN conjunct2, THEN conjunct2, THEN conjunct2, THEN conjunct2,
      THEN conjunct2, THEN mp, OF ready, unfolded subs by_copy who]
  have copied: "map_of (users (run_ledger (snd (cmd_broadcast_here 7 scripted_bot 7 (Some ())
        three_subscribers ?script)))) 2 = None"
    by simp
  from run subs who sent copied before show ?thesis
    by simp
qed








section \<open>The cascading delete\<close>

text \<open>
  C8. Whichever steps of \<^verbatim>\<open>remove_user\<close> fail: either it returns normally, and then the
  user row and the payment row of that user are both gone, or it raises, and then the
  Ledger is exactly as before. It returns normally exactly when no step fails.
\<close>

theorem remove_user_all_or_nothing:
  "((snd (remove_user_tx fails u L) = None
      \<and> fst (remove_user_tx fails u L) = remove_user u L
      \<and> map_of (users (fst (remove_user_tx fails u L))) u = None
      \<and> map_of (payments (fst (remove_user_tx fails u L))) u = None)
    \<or> (snd (remove_user_tx fails u L) \<noteq> None \<and> fst (remove_user_tx fails u L) = L))
   \<and> ((snd (remove_user_tx fails u L) = None) =
        (\<not> fails Acquire \<and> \<not> fails Begin \<and> \<not> fails DeleteUsers \<and>
         \<not> fails DeletePayments \<and> \<not> fails Commit))"
  by (simp add: remove_user_tx_def transaction_def execute_def remove_user_def
      map_of_delete_where)

end
